theory Spec2Isabelle
  imports Complex_Main
begin

section \<open>The bird catalogue server (server.js)\<close>

text \<open>
  A shallow embedding of the Express application of \<^verbatim>\<open>src/server.js\<close>: the in-memory
  array \<^verbatim>\<open>birds\<close>, the three JSON files beside it, the image directory, the two
  middlewares \<^verbatim>\<open>operationRateLimiter\<close> and \<^verbatim>\<open>logOperation\<close>, multer's
  \<^verbatim>\<open>upload.single('image')\<close> and the route handlers.

  Conventions of the model.
  \<^item> A JavaScript string is a \<^typ>\<open>string\<close>; one \<^typ>\<open>char\<close> stands for one UTF-16 code
    unit, so \<^verbatim>\<open>s.length\<close> is \<^term>\<open>length s\<close>. Code units above 255 are outside the model.
  \<^item> A \<^verbatim>\<open>Date\<close> is its time value, an \<^typ>\<open>int\<close> of milliseconds since the epoch. The
    files keep timestamps as \<^verbatim>\<open>toISOString()\<close> text and read them back with
    \<^verbatim>\<open>new Date(text)\<close>; the two are inverse at millisecond precision, so the model keeps
    the time value itself.
  \<^item> Numbers are integers (ids come from \<^verbatim>\<open>Date.now()\<close>, pages from \<^verbatim>\<open>parseInt\<close>); the
    model computes with unbounded \<^typ>\<open>int\<close>, which agrees with IEEE doubles on every
    integer of magnitude below \<open>2^53\<close>.
  \<^item> \<^verbatim>\<open>undefined\<close> and \<^verbatim>\<open>null\<close> are \<^term>\<open>None\<close>.
  \<^item> Requests are handled one after the other, and the clock reading \<open>now\<close> of a request
    is the same for every \<^verbatim>\<open>new Date()\<close> and \<^verbatim>\<open>Date.now()\<close> evaluated while it is
    handled.
  \<^item> File reads and writes succeed (the source swallows their errors); a write replaces
    the file's content and is recorded in the trace \<open>fs_trace\<close>. The two operation
    files hold the arrays themselves (their JSON text is not modelled); the data file
    holds its text as a JavaScript string, \<^term>\<open>None\<close> while it does not exist (the
    UTF-8 encoding between string and file is not modelled).
  \<^item> The static file routes, CORS and the \<^verbatim>\<open>Cache-Control\<close> header set on every
    \<^verbatim>\<open>/api\<close> answer are left out: they touch nothing the handlers read.
\<close>

subsection \<open>Data\<close>

datatype http_method = GET | POST | PUT | DELETE

record bird =
  bird_id :: int
  name :: string
  imageUrl :: "string option"

text \<open>An entry of \<^verbatim>\<open>ip_operations.json\<close>.\<close>

record ip_operation =
  ip :: string
  timestamp :: int
  op_method :: http_method
  path :: string

text \<open>An entry of \<^verbatim>\<open>operation_log.json\<close>.\<close>

record log_entry =
  log_timestamp :: int
  log_ip :: string
  operation :: string
  log_method :: http_method
  log_path :: string
  userAgent :: "string option"

text \<open>\<^verbatim>\<open>req.file\<close>: the name multer generated for the upload and its size in bytes.\<close>

record upload =
  filename :: string
  file_size :: nat

datatype fs_event =
    WriteIpOperations
  | WriteOperationLog
  | WriteDataFile
  | StoreImage string
  | Unlink string

record state =
  birds :: "bird list"
  dataFile :: "string option"
  ipOperationsFile :: "ip_operation list"
  operationLogFile :: "log_entry list"
  images :: "string list"
  fs_trace :: "fs_event list"

subsection \<open>Requests and responses\<close>

datatype route = ListBirds | CountBirds | GetBird | CreateBird | UpdateBird | DeleteBird

text \<open>
  The header \<^verbatim>\<open>x-operation-desc\<close> as \<^verbatim>\<open>logOperation\<close> sees it: absent (or empty, which
  is falsy), decoded by \<^verbatim>\<open>decodeURIComponent\<close> to a string, or malformed, in which case
  \<^verbatim>\<open>decodeURIComponent\<close> throws a URIError.
\<close>

datatype desc_header = NoDesc | Desc string | MalformedDesc

text \<open>
  Express finds the route and \<^verbatim>\<open>req.params.id\<close> from the method and the path; the record
  holds them beside \<open>req_path\<close>, the raw \<^verbatim>\<open>req.path\<close> as it was sent (percent-encoding
  included). \<open>now\<close> is the clock reading, and \<open>thirtyDaysAgo\<close> the time value of
  \<^verbatim>\<open>new Date()\<close> after \<^verbatim>\<open>setDate(getDate() - 30)\<close>: the clock reading moved back thirty
  days of the server's local calendar, which is thirty times 24 hours back, give or take
  a change of the time zone's offset in between.
\<close>

record request =
  route :: route
  req_path :: string
  params_id :: string
  req_ip :: "string option"
  x_forwarded_for :: "string option"
  remoteAddress :: "string option"
  x_operation_desc :: desc_header
  user_agent :: "string option"
  body_name :: "string option"
  image_part :: "upload option"
  query_page :: "string option"
  query_search :: "string option"
  now :: int
  thirtyDaysAgo :: int

datatype body =
    BirdsPage "bird list" bool
  | CountBody nat nat
  | BirdBody bird
  | BirdOpBody bird "string option"
  | MessageBody string "string option"
  | ErrorBody string
  | RateLimitBody int int
  | DefaultErrorPage

text \<open>
  \<open>RateLimitBody remaining resetTime\<close> is the body of the 429 answer (its two fixed
  texts \<^verbatim>\<open>error\<close> and \<^verbatim>\<open>message\<close> are left out); \<open>ratelimit\<close> holds the headers
  \<^verbatim>\<open>X-RateLimit-Limit\<close> and \<^verbatim>\<open>X-RateLimit-Remaining\<close> when they were set.
\<close>

record response =
  status :: nat
  ratelimit :: "(int \<times> int) option"
  body :: body

text \<open>
  What a middleware works on: the server's state, the response headers set so far,
  \<^verbatim>\<open>res.locals.operationDesc\<close> and \<^verbatim>\<open>req.file\<close>.
\<close>

record ctx =
  server :: state
  ratelimit_headers :: "(int \<times> int) option"
  operationDesc :: "string option"
  req_file :: "upload option"

datatype js_error = URIError

text \<open>
  A middleware calls \<^verbatim>\<open>next()\<close>, sends the response, or throws (an async middleware
  that throws leaves the request without an answer from this code).
\<close>

datatype outcome = Next ctx | Sent ctx response | Threw ctx js_error

type_synonym middleware = "request \<Rightarrow> ctx \<Rightarrow> outcome"

fun ctx_of :: "outcome \<Rightarrow> ctx" where
  "ctx_of (Next c) = c"
| "ctx_of (Sent c r) = c"
| "ctx_of (Threw c e) = c"

fun response_of :: "outcome \<Rightarrow> response option" where
  "response_of (Sent c r) = Some r"
| "response_of (Next c) = None"
| "response_of (Threw c e) = None"

definition send :: "ctx \<Rightarrow> nat \<Rightarrow> body \<Rightarrow> outcome" where
  "send c code b = Sent c \<lparr>status = code, ratelimit = ratelimit_headers c, body = b\<rparr>"

definition req_method :: "request \<Rightarrow> http_method" where
  "req_method req =
     (case route req of
        ListBirds \<Rightarrow> GET | CountBirds \<Rightarrow> GET | GetBird \<Rightarrow> GET
      | CreateBird \<Rightarrow> POST | UpdateBird \<Rightarrow> PUT | DeleteBird \<Rightarrow> DELETE)"

subsection \<open>JavaScript built-ins the handlers use\<close>

text \<open>\<^verbatim>\<open>a || b\<close> on strings that may be undefined: the empty string is falsy.\<close>

definition truthy :: "string option \<Rightarrow> bool" where
  "truthy v = (case v of None \<Rightarrow> False | Some s \<Rightarrow> s \<noteq> [])"

definition js_or :: "string option \<Rightarrow> string option \<Rightarrow> string option" where
  "js_or a b = (if truthy a then a else b)"

text \<open>\<^verbatim>\<open>Math.ceil(x / d)\<close> for integers \<open>x\<close> and \<open>d > 0\<close>.\<close>

definition Math_ceil_div :: "int \<Rightarrow> int \<Rightarrow> int" where
  "Math_ceil_div x d = - ((- x) div d)"

text \<open>
  \<^verbatim>\<open>parseInt(s)\<close> without a radix: leading white space is skipped, then an optional
  sign, then \<^verbatim>\<open>0x\<close> or \<^verbatim>\<open>0X\<close> selects base 16; the longest prefix of digits is read
  and the rest ignored. \<^term>\<open>None\<close> is NaN.
\<close>

definition is_space :: "char \<Rightarrow> bool" where
  "is_space ch = (ch \<in> set [CHR '' '', CHR 0x09, CHR 0x0A, CHR 0x0B, CHR 0x0C, CHR 0x0D, CHR 0xA0])"

definition digit_val :: "char \<Rightarrow> nat option" where
  "digit_val ch =
     (let n = (of_char ch :: nat) in
      if 48 \<le> n \<and> n \<le> 57 then Some (n - 48)
      else if 97 \<le> n \<and> n \<le> 102 then Some (n - 87)
      else if 65 \<le> n \<and> n \<le> 70 then Some (n - 55)
      else None)"

fun read_digits :: "nat \<Rightarrow> nat \<Rightarrow> string \<Rightarrow> nat" where
  "read_digits radix acc [] = acc"
| "read_digits radix acc (ch # cs) =
     (case digit_val ch of
        None \<Rightarrow> acc
      | Some d \<Rightarrow> if d < radix then read_digits radix (acc * radix + d) cs else acc)"

definition has_digit :: "nat \<Rightarrow> string \<Rightarrow> bool" where
  "has_digit radix s =
     (case s of [] \<Rightarrow> False
      | ch # cs \<Rightarrow> (case digit_val ch of None \<Rightarrow> False | Some d \<Rightarrow> d < radix))"

definition parse_magnitude :: "string \<Rightarrow> nat option" where
  "parse_magnitude s =
     (let hex = (take 2 s = ''0x'' \<or> take 2 s = ''0X'');
          radix = (if hex then 16 else 10);
          ds = (if hex then drop 2 s else s)
      in if has_digit radix ds then Some (read_digits radix 0 ds) else None)"

definition parseInt :: "string option \<Rightarrow> int option" where
  "parseInt v =
     (case v of
        None \<Rightarrow> None
      | Some s \<Rightarrow>
          (let t = dropWhile is_space s in
           case t of
             [] \<Rightarrow> None
           | ch # cs \<Rightarrow>
               if ch = CHR ''-'' then map_option (\<lambda>n. - int n) (parse_magnitude cs)
               else if ch = CHR ''+'' then map_option int (parse_magnitude cs)
               else map_option int (parse_magnitude t)))"

text \<open>\<^verbatim>\<open>String(n)\<close> for an integer: its decimal digits, with a minus sign when negative.\<close>

fun digits :: "nat \<Rightarrow> string" where
  "digits n = (if n < 10 then [char_of (48 + n)] else digits (n div 10) @ [char_of (48 + n mod 10)])"

definition String_of_int :: "int \<Rightarrow> string" where
  "String_of_int i = (if i < 0 then CHR ''-'' # digits (nat (- i)) else digits (nat i))"

text \<open>
  \<^verbatim>\<open>toLowerCase\<close> on the code units of the model: the letters A to Z, and the
  Latin-1 capitals (0xC0 to 0xDE without the multiplication sign 0xD7).
\<close>

definition lower_char :: "char \<Rightarrow> char" where
  "lower_char ch =
     (let n = (of_char ch :: nat) in
      if (65 \<le> n \<and> n \<le> 90) \<or> (192 \<le> n \<and> n \<le> 222 \<and> n \<noteq> 215) then char_of (n + 32) else ch)"

definition toLowerCase :: "string \<Rightarrow> string" where
  "toLowerCase s = map lower_char s"

text \<open>\<^verbatim>\<open>s.includes(t)\<close>: \<open>t\<close> occurs in \<open>s\<close> as a contiguous substring.\<close>

fun starts_with :: "string \<Rightarrow> string \<Rightarrow> bool" where
  "starts_with s [] = True"
| "starts_with [] (b # t) = False"
| "starts_with (a # s) (b # t) = (a = b \<and> starts_with s t)"

fun includes_str :: "string \<Rightarrow> string \<Rightarrow> bool" where
  "includes_str [] t = (t = [])"
| "includes_str (a # s) t = (starts_with (a # s) t \<or> includes_str s t)"

text \<open>
  \<^verbatim>\<open>xs.slice(start, end)\<close>: a negative index counts from the end, and both indices are
  clamped to the array.
\<close>

definition slice_index :: "nat \<Rightarrow> int \<Rightarrow> nat" where
  "slice_index len i = (if i < 0 then nat (max (int len + i) 0) else min (nat i) len)"

definition slice :: "'a list \<Rightarrow> int \<Rightarrow> int \<Rightarrow> 'a list" where
  "slice xs start end_index =
     (let k = slice_index (length xs) start;
          final = slice_index (length xs) end_index
      in take (final - k) (drop k xs))"

text \<open>\<^verbatim>\<open>xs.findIndex(p)\<close>, with \<^term>\<open>None\<close> for -1, and \<^verbatim>\<open>xs.find(p)\<close>.\<close>

fun findIndex :: "('a \<Rightarrow> bool) \<Rightarrow> 'a list \<Rightarrow> nat option" where
  "findIndex p [] = None"
| "findIndex p (x # xs) = (if p x then Some 0 else map_option Suc (findIndex p xs))"

text \<open>\<^verbatim>\<open>xs.splice(i, 1)\<close> for an index inside the array.\<close>

definition splice1 :: "nat \<Rightarrow> 'a list \<Rightarrow> 'a list" where
  "splice1 i xs = take i xs @ drop (Suc i) xs"

subsection \<open>JSON text of the data file\<close>

text \<open>
  The values \<^verbatim>\<open>JSON.stringify\<close> and \<^verbatim>\<open>JSON.parse\<close> work on. Numbers are integers;
  an object is the list of its properties in creation order.
\<close>

datatype json =
    JNull
  | JBool bool
  | JNum int
  | JStr string
  | JArr "json list"
  | JObj "(string \<times> json) list"

text \<open>
  \<^verbatim>\<open>QuoteJSONString\<close>: the quotation mark and the backslash are escaped, the control
  characters below 0x20 become their short escapes or \<^verbatim>\<open>\u00xx\<close> with lower-case
  hexadecimal digits, every other code unit stands for itself.
\<close>

definition hex_digit :: "nat \<Rightarrow> char" where
  "hex_digit d = (if d < 10 then char_of (48 + d) else char_of (87 + d))"

definition escape_char :: "char \<Rightarrow> string" where
  "escape_char ch =
     (let n = (of_char ch :: nat) in
      if n = 0x22 then [CHR 0x5C, CHR 0x22]
      else if n = 0x5C then [CHR 0x5C, CHR 0x5C]
      else if n = 0x08 then [CHR 0x5C, CHR ''b'']
      else if n = 0x0C then [CHR 0x5C, CHR ''f'']
      else if n = 0x0A then [CHR 0x5C, CHR ''n'']
      else if n = 0x0D then [CHR 0x5C, CHR ''r'']
      else if n = 0x09 then [CHR 0x5C, CHR ''t'']
      else if n < 0x20 then
        [CHR 0x5C, CHR ''u'', CHR ''0'', CHR ''0'', hex_digit (n div 16), hex_digit (n mod 16)]
      else [ch])"

definition QuoteJSONString :: "string \<Rightarrow> string" where
  "QuoteJSONString s = CHR 0x22 # concat (map escape_char s) @ [CHR 0x22]"

text \<open>
  \<^verbatim>\<open>JSON.stringify(value, null, 2)\<close>: \<open>ind\<close> is the current indentation; an array or
  object that is not empty puts each element on a line of its own, two spaces deeper,
  and a property is written \<^verbatim>\<open>"key": value\<close>.
\<close>

fun SerializeJSONProperty :: "string \<Rightarrow> json \<Rightarrow> string"
  and SerializeJSONArray :: "string \<Rightarrow> json list \<Rightarrow> string"
  and SerializeJSONObject :: "string \<Rightarrow> (string \<times> json) list \<Rightarrow> string"
where
  "SerializeJSONProperty ind JNull = ''null''"
| "SerializeJSONProperty ind (JBool b) = (if b then ''true'' else ''false'')"
| "SerializeJSONProperty ind (JNum i) = String_of_int i"
| "SerializeJSONProperty ind (JStr s) = QuoteJSONString s"
| "SerializeJSONProperty ind (JArr []) = ''[]''"
| "SerializeJSONProperty ind (JArr (x # xs)) =
     CHR ''['' # CHR 0x0A # (ind @ ''  '') @ SerializeJSONArray (ind @ ''  '') (x # xs)
       @ CHR 0x0A # ind @ '']''"
| "SerializeJSONProperty ind (JObj []) = ''{}''"
| "SerializeJSONProperty ind (JObj (kv # kvs)) =
     CHR ''{'' # CHR 0x0A # (ind @ ''  '') @ SerializeJSONObject (ind @ ''  '') (kv # kvs)
       @ CHR 0x0A # ind @ ''}''"
| "SerializeJSONArray ind [] = []"
| "SerializeJSONArray ind [x] = SerializeJSONProperty ind x"
| "SerializeJSONArray ind (x # y # ys) =
     SerializeJSONProperty ind x @ CHR '','' # CHR 0x0A # ind @ SerializeJSONArray ind (y # ys)"
| "SerializeJSONObject ind [] = []"
| "SerializeJSONObject ind [(k, v)] = QuoteJSONString k @ '': '' @ SerializeJSONProperty ind v"
| "SerializeJSONObject ind ((k, v) # kv # kvs) =
     QuoteJSONString k @ '': '' @ SerializeJSONProperty ind v
       @ CHR '','' # CHR 0x0A # ind @ SerializeJSONObject ind (kv # kvs)"

definition JSON_stringify_2 :: "json \<Rightarrow> string" where
  "JSON_stringify_2 v = SerializeJSONProperty [] v"

text \<open>
  A bird as the object the handlers build: \<^verbatim>\<open>{id, name, imageUrl}\<close> in this order
  (the spread in the update handler keeps it).
\<close>

definition bird_to_json :: "bird \<Rightarrow> json" where
  "bird_to_json b =
     JObj [(''id'', JNum (bird_id b)),
           (''name'', JStr (name b)),
           (''imageUrl'', (case imageUrl b of None \<Rightarrow> JNull | Some u \<Rightarrow> JStr u))]"

subsection \<open>The files\<close>

definition readIpOperations :: "state \<Rightarrow> ip_operation list" where
  "readIpOperations s = ipOperationsFile s"

definition writeIpOperations :: "ip_operation list \<Rightarrow> state \<Rightarrow> state" where
  "writeIpOperations records s =
     s\<lparr>ipOperationsFile := records, fs_trace := fs_trace s @ [WriteIpOperations]\<rparr>"

definition readOperationLog :: "state \<Rightarrow> log_entry list" where
  "readOperationLog s = operationLogFile s"

definition writeOperationLog :: "log_entry list \<Rightarrow> state \<Rightarrow> state" where
  "writeOperationLog logs s =
     s\<lparr>operationLogFile := logs, fs_trace := fs_trace s @ [WriteOperationLog]\<rparr>"

definition saveData :: "state \<Rightarrow> state" where
  "saveData s =
     s\<lparr>dataFile := Some (JSON_stringify_2 (JArr (map bird_to_json (birds s)))),
       fs_trace := fs_trace s @ [WriteDataFile]\<rparr>"

text \<open>\<^verbatim>\<open>fs.unlink\<close> of an image; a failure is caught and only logged by the source.\<close>

definition unlink :: "string \<Rightarrow> state \<Rightarrow> state" where
  "unlink f s = s\<lparr>images := removeAll f (images s), fs_trace := fs_trace s @ [Unlink f]\<rparr>"

subsection \<open>Reading the data file\<close>

text \<open>
  \<^verbatim>\<open>JSON.parse\<close> as a recursive-descent parser of the JSON grammar. \<open>SyntaxError\<close> is the
  exception \<^verbatim>\<open>JSON.parse\<close> throws. \<open>NotModelled\<close> marks text the model has no value for
  (and says nothing about): a number with a fraction or an exponent, a \<^verbatim>\<open>\u\<close> escape
  above 255, an object with a key that is an array index (JavaScript moves such keys to
  the front). The nesting of arrays and objects is bounded by the fuel, which
  \<open>JSON_parse\<close> sets above the length of the text.
\<close>

datatype parse_error = SyntaxError | NotModelled | OutOfFuel

definition is_json_ws :: "char \<Rightarrow> bool" where
  "is_json_ws ch = (ch = CHR '' '' \<or> ch = CHR 0x09 \<or> ch = CHR 0x0A \<or> ch = CHR 0x0D)"

definition skip_ws :: "string \<Rightarrow> string" where
  "skip_ws s = dropWhile is_json_ws s"

definition is_digit :: "char \<Rightarrow> bool" where
  "is_digit ch = (48 \<le> (of_char ch :: nat) \<and> (of_char ch :: nat) \<le> 57)"

text \<open>
  A number: an optional minus sign and digits without a leading zero; the value of
  \<^verbatim>\<open>-0\<close> is 0.
\<close>

definition parse_number :: "string \<Rightarrow> parse_error + (int \<times> string)" where
  "parse_number s =
     (let negative = (case s of [] \<Rightarrow> False | c # cs \<Rightarrow> c = CHR ''-'');
          t = (if negative then drop 1 s else s);
          ds = takeWhile is_digit t;
          rest = dropWhile is_digit t
      in if ds = [] then Inl SyntaxError
         else if length ds > 1 \<and> take 1 ds = ''0'' then Inl SyntaxError
         else if (case rest of [] \<Rightarrow> False
                  | c # cs \<Rightarrow> c = CHR ''.'' \<or> c = CHR ''e'' \<or> c = CHR ''E'') then Inl NotModelled
         else Inr (if negative then - int (read_digits 10 0 ds) else int (read_digits 10 0 ds), rest))"

definition hex4 :: "string \<Rightarrow> nat option" where
  "hex4 s =
     (case s of
        a # b # c # d # rest \<Rightarrow>
          (case (digit_val a, digit_val b, digit_val c, digit_val d) of
             (Some x, Some y, Some z, Some w) \<Rightarrow> Some (((x * 16 + y) * 16 + z) * 16 + w)
           | _ \<Rightarrow> None)
      | _ \<Rightarrow> None)"

definition unescape :: "char \<Rightarrow> char option" where
  "unescape e =
     (if e = CHR 0x22 then Some (CHR 0x22)
      else if e = CHR 0x5C then Some (CHR 0x5C)
      else if e = CHR ''/'' then Some (CHR ''/'')
      else if e = CHR ''b'' then Some (CHR 0x08)
      else if e = CHR ''f'' then Some (CHR 0x0C)
      else if e = CHR ''n'' then Some (CHR 0x0A)
      else if e = CHR ''r'' then Some (CHR 0x0D)
      else if e = CHR ''t'' then Some (CHR 0x09)
      else None)"

definition cons_char :: "char \<Rightarrow> parse_error + (string \<times> string) \<Rightarrow> parse_error + (string \<times> string)" where
  "cons_char ch r = (case r of Inl e \<Rightarrow> Inl e | Inr (str, rest) \<Rightarrow> Inr (ch # str, rest))"

text \<open>A string, read from behind its opening quotation mark.\<close>

fun parse_string_body :: "string \<Rightarrow> parse_error + (string \<times> string)" where
  "parse_string_body [] = Inl SyntaxError"
| "parse_string_body (c # cs) =
     (if c = CHR 0x22 then Inr ([], cs)
      else if c = CHR 0x5C then
        (case cs of
           [] \<Rightarrow> Inl SyntaxError
         | e # r \<Rightarrow>
             if e = CHR ''u'' then
               (case hex4 r of
                  None \<Rightarrow> Inl SyntaxError
                | Some u \<Rightarrow>
                    if u < 256 then cons_char (char_of u) (parse_string_body (drop 4 r))
                    else Inl NotModelled)
             else
               (case unescape e of
                  None \<Rightarrow> Inl SyntaxError
                | Some ch \<Rightarrow> cons_char ch (parse_string_body r)))
      else if (of_char c :: nat) < 32 then Inl SyntaxError
      else cons_char c (parse_string_body cs))"

text \<open>
  A property read twice keeps its first place and takes the later value.
\<close>

definition obj_put :: "string \<Rightarrow> json \<Rightarrow> (string \<times> json) list \<Rightarrow> (string \<times> json) list" where
  "obj_put k v kvs =
     (if k \<in> set (map fst kvs) then map (\<lambda>kv. if fst kv = k then (k, v) else kv) kvs
      else kvs @ [(k, v)])"

definition is_array_index :: "string \<Rightarrow> bool" where
  "is_array_index k = (k \<noteq> [] \<and> list_all is_digit k \<and> (length k = 1 \<or> take 1 k \<noteq> ''0''))"

fun parse_value :: "nat \<Rightarrow> string \<Rightarrow> parse_error + (json \<times> string)"
  and parse_elements :: "nat \<Rightarrow> json list \<Rightarrow> string \<Rightarrow> parse_error + (json list \<times> string)"
  and parse_members :: "nat \<Rightarrow> (string \<times> json) list \<Rightarrow> string
                          \<Rightarrow> parse_error + ((string \<times> json) list \<times> string)"
where
  "parse_value 0 s = Inl OutOfFuel"
| "parse_value (Suc n) s =
     (case s of
        [] \<Rightarrow> Inl SyntaxError
      | c # cs \<Rightarrow>
          if c = CHR ''n'' then
            (if starts_with s ''null'' then Inr (JNull, drop 4 s) else Inl SyntaxError)
          else if c = CHR ''t'' then
            (if starts_with s ''true'' then Inr (JBool True, drop 4 s) else Inl SyntaxError)
          else if c = CHR ''f'' then
            (if starts_with s ''false'' then Inr (JBool False, drop 5 s) else Inl SyntaxError)
          else if c = CHR 0x22 then
            (case parse_string_body cs of
               Inl e \<Rightarrow> Inl e
             | Inr (str, rest) \<Rightarrow> Inr (JStr str, rest))
          else if c = CHR ''['' then
            (case skip_ws cs of
               [] \<Rightarrow> Inl SyntaxError
             | d # ds \<Rightarrow>
                 if d = CHR '']'' then Inr (JArr [], ds)
                 else (case parse_elements n [] (d # ds) of
                         Inl e \<Rightarrow> Inl e
                       | Inr (xs, rest) \<Rightarrow> Inr (JArr xs, rest)))
          else if c = CHR ''{'' then
            (case skip_ws cs of
               [] \<Rightarrow> Inl SyntaxError
             | d # ds \<Rightarrow>
                 if d = CHR ''}'' then Inr (JObj [], ds)
                 else (case parse_members n [] (d # ds) of
                         Inl e \<Rightarrow> Inl e
                       | Inr (kvs, rest) \<Rightarrow> Inr (JObj kvs, rest)))
          else if c = CHR ''-'' \<or> is_digit c then
            (case parse_number s of
               Inl e \<Rightarrow> Inl e
             | Inr (i, rest) \<Rightarrow> Inr (JNum i, rest))
          else Inl SyntaxError)"
| "parse_elements 0 acc s = Inl OutOfFuel"
| "parse_elements (Suc n) acc s =
     (case parse_value n s of
        Inl e \<Rightarrow> Inl e
      | Inr (v, rest) \<Rightarrow>
          (case skip_ws rest of
             [] \<Rightarrow> Inl SyntaxError
           | d # ds \<Rightarrow>
               if d = CHR '','' then parse_elements n (acc @ [v]) (skip_ws ds)
               else if d = CHR '']'' then Inr (acc @ [v], ds)
               else Inl SyntaxError))"
| "parse_members 0 acc s = Inl OutOfFuel"
| "parse_members (Suc n) acc s =
     (case s of
        [] \<Rightarrow> Inl SyntaxError
      | q # cs \<Rightarrow>
          if q \<noteq> CHR 0x22 then Inl SyntaxError
          else
            (case parse_string_body cs of
               Inl e \<Rightarrow> Inl e
             | Inr (k, r1) \<Rightarrow>
                 (case skip_ws r1 of
                    [] \<Rightarrow> Inl SyntaxError
                  | colon # r2 \<Rightarrow>
                      if colon \<noteq> CHR '':'' then Inl SyntaxError
                      else
                        (case parse_value n (skip_ws r2) of
                           Inl e \<Rightarrow> Inl e
                         | Inr (v, r3) \<Rightarrow>
                             if is_array_index k then Inl NotModelled
                             else
                               (case skip_ws r3 of
                                  [] \<Rightarrow> Inl SyntaxError
                                | d # ds \<Rightarrow>
                                    if d = CHR '','' then parse_members n (obj_put k v acc) (skip_ws ds)
                                    else if d = CHR ''}'' then Inr (obj_put k v acc, ds)
                                    else Inl SyntaxError)))))"

definition JSON_parse :: "string \<Rightarrow> parse_error + json" where
  "JSON_parse s =
     (case parse_value (Suc (length s)) (skip_ws s) of
        Inl e \<Rightarrow> Inl e
      | Inr (v, rest) \<Rightarrow> if skip_ws rest = [] then Inr v else Inl SyntaxError)"

text \<open>
  The objects the typed store can hold: \<^verbatim>\<open>{id, name, imageUrl}\<close> in this order with an
  integer, a string, and a string or \<^verbatim>\<open>null\<close>.
\<close>

fun bird_of_json :: "json \<Rightarrow> bird option" where
  "bird_of_json (JObj [(k1, JNum i), (k2, JStr n), (k3, u)]) =
     (if k1 = ''id'' \<and> k2 = ''name'' \<and> k3 = ''imageUrl'' then
        (case u of
           JNull \<Rightarrow> Some \<lparr>bird_id = i, name = n, imageUrl = None\<rparr>
         | JStr f \<Rightarrow> Some \<lparr>bird_id = i, name = n, imageUrl = Some f\<rparr>
         | _ \<Rightarrow> None)
      else None)"
| "bird_of_json v = None"

definition birds_of_json :: "json \<Rightarrow> bird list option" where
  "birds_of_json v = (case v of JArr xs \<Rightarrow> those (map bird_of_json xs) | _ \<Rightarrow> None)"

text \<open>
  \<^verbatim>\<open>initData\<close>, run at start-up: a missing file or a syntax error leaves the store empty.
  The result is \<^term>\<open>None\<close> when the file holds JSON that is no list of bird records
  as above: JavaScript would keep that value in \<^verbatim>\<open>birds\<close>, the typed store cannot.
\<close>

definition initData :: "state \<Rightarrow> state option" where
  "initData s =
     (case dataFile s of
        None \<Rightarrow> Some (s\<lparr>birds := []\<rparr>)
      | Some text \<Rightarrow>
          (case JSON_parse text of
             Inl SyntaxError \<Rightarrow> Some (s\<lparr>birds := []\<rparr>)
           | Inl NotModelled \<Rightarrow> None
           | Inl OutOfFuel \<Rightarrow> None
           | Inr v \<Rightarrow> (case birds_of_json v of None \<Rightarrow> None | Some bs \<Rightarrow> Some (s\<lparr>birds := bs\<rparr>))))"

subsection \<open>Middlewares\<close>

definition getClientIp :: "request \<Rightarrow> string" where
  "getClientIp req =
     (case js_or (req_ip req) (js_or (x_forwarded_for req) (js_or (remoteAddress req) (Some ''unknown''))) of
        Some a \<Rightarrow> a
      | None \<Rightarrow> ''unknown'')"

definition operationRateLimiter :: middleware where
  "operationRateLimiter req c =
     (let clientIp = getClientIp req;
          operations = readIpOperations (server c);
          twentyFourHoursAgo = now req - 24 * 60 * 60 * 1000;
          recentOperations =
            filter (\<lambda>op. timestamp op > twentyFourHoursAgo \<and> ip op = clientIp) operations
      in if length recentOperations \<ge> 8 then
           send c 429
             (RateLimitBody 0
                (Math_ceil_div (twentyFourHoursAgo + 24 * 60 * 60 * 1000 - now req) 1000))
         else
           (let pushed = operations @
                  [\<lparr>ip = clientIp, timestamp = now req, op_method = req_method req, path = req_path req\<rparr>];
                cleanedOperations = filter (\<lambda>op. timestamp op > twentyFourHoursAgo) pushed
            in Next (c\<lparr>server := writeIpOperations cleanedOperations (server c),
                       ratelimit_headers := Some (8, 8 - int (length recentOperations) - 1)\<rparr>)))"

definition method_text :: "http_method \<Rightarrow> string" where
  "method_text m = (case m of GET \<Rightarrow> ''GET'' | POST \<Rightarrow> ''POST'' | PUT \<Rightarrow> ''PUT'' | DELETE \<Rightarrow> ''DELETE'')"

definition logOperation :: middleware where
  "logOperation req c =
     (let clientIp = getClientIp req in
      case (case x_operation_desc req of
              NoDesc \<Rightarrow> Some (method_text (req_method req) @ '' '' @ req_path req)
            | Desc d \<Rightarrow> Some d
            | MalformedDesc \<Rightarrow> None) of
        None \<Rightarrow> Threw c URIError
      | Some operationDesc' \<Rightarrow>
          (let logEntry = \<lparr>log_timestamp = now req, log_ip = clientIp, operation = operationDesc',
                            log_method = req_method req, log_path = req_path req,
                            userAgent = user_agent req\<rparr>;
               logs = readOperationLog (server c) @ [logEntry];
               recentLogs = filter (\<lambda>log. log_timestamp log > thirtyDaysAgo req) logs
           in Next (c\<lparr>server := writeOperationLog recentLogs (server c),
                      operationDesc := Some operationDesc'\<rparr>)))"

text \<open>
  \<^verbatim>\<open>upload.single('image')\<close> with \<^verbatim>\<open>limits: { fileSize: 5 * 1024 * 1024 }\<close>: a larger file
  makes multer pass an error on, which Express answers with 500; otherwise the file is
  stored in the image directory and becomes \<^verbatim>\<open>req.file\<close>.
\<close>

definition upload_single :: middleware where
  "upload_single req c =
     (case image_part req of
        None \<Rightarrow> Next c
      | Some f \<Rightarrow>
          if file_size f > 5 * 1024 * 1024 then send c 500 DefaultErrorPage
          else Next (c\<lparr>server := (server c)\<lparr>images := filename f # images (server c),
                                               fs_trace := fs_trace (server c) @ [StoreImage (filename f)]\<rparr>,
                       req_file := Some f\<rparr>))"

subsection \<open>Route handlers\<close>

definition list_birds :: middleware where
  "list_birds req c =
     (let page = (case parseInt (query_page req) of None \<Rightarrow> 1 | Some p \<Rightarrow> if p = 0 then 1 else p);
          search = (case js_or (query_search req) (Some []) of Some t \<Rightarrow> t | None \<Rightarrow> []);
          pageSize = 48;
          filteredBirds =
            (if search \<noteq> [] then
               filter (\<lambda>bird. includes_str (toLowerCase (name bird)) (toLowerCase search))
                 (birds (server c))
             else birds (server c));
          startIndex = (page - 1) * pageSize;
          endIndex = startIndex + pageSize;
          paginatedBirds = slice filteredBirds startIndex endIndex;
          hasMore = (endIndex < int (length filteredBirds))
      in send c 200 (BirdsPage paginatedBirds hasMore))"

definition count_birds :: middleware where
  "count_birds req c =
     send c 200 (CountBody (length (birds (server c)))
                          (length (remdups (map name (birds (server c))))))"

definition get_bird :: middleware where
  "get_bird req c =
     (let id' = parseInt (Some (params_id req)) in
      case find (\<lambda>bird. Some (bird_id bird) = id') (birds (server c)) of
        None \<Rightarrow> send c 404 (ErrorBody ''Bird not found'')
      | Some bird \<Rightarrow> send c 200 (BirdBody bird))"

definition create_bird :: middleware where
  "create_bird req c =
     (case body_name req of
        None \<Rightarrow> send c 400 (ErrorBody ''Name is required'')
      | Some name' \<Rightarrow>
          if name' = [] then send c 400 (ErrorBody ''Name is required'')
          else if length name' > 10 then send c 400 (ErrorBody ''Name cannot exceed 10 characters'')
          else if (case req_file c of None \<Rightarrow> False | Some f \<Rightarrow> file_size f > 1048576)
            then send c 400 (ErrorBody ''Image size cannot exceed 1MB'')
          else
            (let newBird = \<lparr>bird_id = now req, name = name',
                             imageUrl = map_option filename (req_file c)\<rparr>;
                 s = (server c)\<lparr>birds := newBird # birds (server c)\<rparr>
             in send (c\<lparr>server := saveData s\<rparr>) 201 (BirdOpBody newBird (operationDesc c))))"

definition update_bird :: middleware where
  "update_bird req c =
     (let id' = parseInt (Some (params_id req)) in
      case findIndex (\<lambda>bird. Some (bird_id bird) = id') (birds (server c)) of
        None \<Rightarrow> send c 404 (ErrorBody ''Bird not found'')
      | Some birdIndex \<Rightarrow>
          (let copy = birds (server c) ! birdIndex;
               renamed = (case body_name req of
                            None \<Rightarrow> copy
                          | Some name' \<Rightarrow> if name' = [] then copy else copy\<lparr>name := name'\<rparr>);
               s1 = (case req_file c of
                       None \<Rightarrow> server c
                     | Some f \<Rightarrow>
                         (case imageUrl renamed of
                            None \<Rightarrow> server c
                          | Some old \<Rightarrow> if old = [] then server c else unlink old (server c)));
               updatedBird = (case req_file c of
                                None \<Rightarrow> renamed
                              | Some f \<Rightarrow> renamed\<lparr>imageUrl := Some (filename f)\<rparr>);
               s2 = s1\<lparr>birds := (birds s1)[birdIndex := updatedBird]\<rparr>
           in send (c\<lparr>server := saveData s2\<rparr>) 200 (BirdOpBody updatedBird (operationDesc c))))"

definition delete_bird :: middleware where
  "delete_bird req c =
     (let id' = parseInt (Some (params_id req)) in
      case findIndex (\<lambda>bird. Some (bird_id bird) = id') (birds (server c)) of
        None \<Rightarrow> send c 404 (ErrorBody ''Bird not found'')
      | Some birdIndex \<Rightarrow>
          (let bird = birds (server c) ! birdIndex;
               s1 = (case imageUrl bird of
                       None \<Rightarrow> server c
                     | Some u \<Rightarrow> if u = [] then server c else unlink u (server c));
               s2 = s1\<lparr>birds := splice1 birdIndex (birds s1)\<rparr>
           in send (c\<lparr>server := saveData s2\<rparr>) 200
                (MessageBody ''Bird deleted successfully'' (operationDesc c))))"

subsection \<open>The application\<close>

text \<open>
  The middlewares of a route run in the order of their registration; the first that does
  not call \<^verbatim>\<open>next()\<close> ends the request.
\<close>

fun run_chain :: "middleware list \<Rightarrow> request \<Rightarrow> ctx \<Rightarrow> outcome" where
  "run_chain [] req c = Next c"
| "run_chain (m # ms) req c =
     (case m req c of
        Next c' \<Rightarrow> run_chain ms req c'
      | Sent c' r \<Rightarrow> Sent c' r
      | Threw c' e \<Rightarrow> Threw c' e)"

definition chain_of :: "route \<Rightarrow> middleware list" where
  "chain_of r =
     (case r of
        ListBirds \<Rightarrow> [list_birds]
      | CountBirds \<Rightarrow> [count_birds]
      | GetBird \<Rightarrow> [get_bird]
      | CreateBird \<Rightarrow> [operationRateLimiter, logOperation, upload_single, create_bird]
      | UpdateBird \<Rightarrow> [operationRateLimiter, logOperation, upload_single, update_bird]
      | DeleteBird \<Rightarrow> [operationRateLimiter, logOperation, delete_bird])"

definition handle :: "state \<Rightarrow> request \<Rightarrow> outcome" where
  "handle s req =
     run_chain (chain_of (route req)) req
       \<lparr>server = s, ratelimit_headers = None, operationDesc = None, req_file = None\<rparr>"

definition state_after :: "state \<Rightarrow> request \<Rightarrow> state" where
  "state_after s req = server (ctx_of (handle s req))"

text \<open>The requests of a list, handled one after the other.\<close>

fun serve :: "state \<Rightarrow> request list \<Rightarrow> state" where
  "serve s [] = s"
| "serve s (req # reqs) = serve (state_after s req) reqs"

definition mutating :: "request \<Rightarrow> bool" where
  "mutating req = (route req = CreateBird \<or> route req = UpdateBird \<or> route req = DeleteBird)"

definition rejected_429 :: "outcome \<Rightarrow> bool" where
  "rejected_429 out = (case response_of out of None \<Rightarrow> False | Some r \<Rightarrow> status r = 429)"

text \<open>The retry hint of a 429 answer.\<close>

definition resetTime :: "response \<Rightarrow> int option" where
  "resetTime r = (case body r of RateLimitBody remaining t \<Rightarrow> Some t | _ \<Rightarrow> None)"

subsection \<open>Concrete inputs\<close>

text \<open>A fresh installation: no data file, two empty operation files, no images.\<close>

definition fresh_state :: state where
  "fresh_state =
     \<lparr>birds = [], dataFile = None, ipOperationsFile = [], operationLogFile = [],
      images = [], fs_trace = []\<rparr>"

text \<open>
  A request on the path \<^verbatim>\<open>/api/birds\<close> (the list and the creation routes) from address
  \<open>a\<close> at time \<open>t\<close>, with nothing else set, and a request on \<^verbatim>\<open>/api/birds/:id\<close> for the
  id \<open>p\<close>. The server's time zone keeps its offset.
\<close>

definition plain_request :: "route \<Rightarrow> string \<Rightarrow> int \<Rightarrow> request" where
  "plain_request r a t =
     \<lparr>route = r, req_path = ''/api/birds'', params_id = [], req_ip = Some a,
      x_forwarded_for = None, remoteAddress = None, x_operation_desc = NoDesc,
      user_agent = None, body_name = None, image_part = None, query_page = None,
      query_search = None, now = t, thirtyDaysAgo = t - 30 * 24 * 60 * 60 * 1000\<rparr>"

definition id_request :: "route \<Rightarrow> string \<Rightarrow> string \<Rightarrow> int \<Rightarrow> request" where
  "id_request r p a t = (plain_request r a t)\<lparr>req_path := ''/api/birds/'' @ p, params_id := p\<rparr>"

text \<open>
  The rate-limit file with nine entries of one address: one older than a day at the time
  100000000, eight within the day before it.
\<close>

definition stale_state :: state where
  "stale_state =
     fresh_state\<lparr>ipOperationsFile :=
       map (\<lambda>t. \<lparr>ip = ''10.0.0.1'', timestamp = t, op_method = POST, path = ''/api/birds''\<rparr>)
         [0, 90000000, 90000001, 90000002, 90000003, 90000004, 90000005, 90000006, 90000007]\<rparr>"

text \<open>
  A log with one entry made twenty-nine days and some twenty-three and a half hours before
  the time 3000000000, and an update of an unknown id at that time: the path has the id
  percent-encoded, and the cut-off is thirty days and one hour back, as after a change of
  the time zone's offset.
\<close>

definition old_log_entry :: log_entry where
  "old_log_entry =
     \<lparr>log_timestamp = 406000000, log_ip = ''10.0.0.9'', operation = ''POST /api/birds'',
      log_method = POST, log_path = ''/api/birds'', userAgent = None\<rparr>"

definition logged_state :: state where
  "logged_state = fresh_state\<lparr>operationLogFile := [old_log_entry]\<rparr>"

definition encoded_update :: request where
  "encoded_update =
     (plain_request UpdateBird ''10.0.0.1'' 3000000000)
       \<lparr>req_path := ''/api/birds/%342'', params_id := ''42'', thirtyDaysAgo := 404400000\<rparr>"

text \<open>Three birds, newest first, and requests on them.\<close>

definition robin :: bird where
  "robin = \<lparr>bird_id = 3000, name = ''Robin'', imageUrl = None\<rparr>"

definition wren :: bird where
  "wren = \<lparr>bird_id = 2000, name = ''wren'', imageUrl = Some ''w.png''\<rparr>"

definition crow :: bird where
  "crow = \<lparr>bird_id = 1000, name = ''Crow'', imageUrl = None\<rparr>"

definition sample_state :: state where
  "sample_state = fresh_state\<lparr>birds := [robin, wren, crow]\<rparr>"

definition list_request :: "string option \<Rightarrow> string option \<Rightarrow> request" where
  "list_request page search =
     (plain_request ListBirds ''10.0.0.1'' 5000)\<lparr>query_page := page, query_search := search\<rparr>"

text \<open>An update of the newest sample bird with a name of eleven characters.\<close>

definition long_name_update :: request where
  "long_name_update =
     (id_request UpdateBird ''3000'' ''10.0.0.1'' 5000)\<lparr>body_name := Some ''abcdefghijk''\<rparr>"

text \<open>Creations with the same name, and one at the millisecond the newest sample bird was created.\<close>

definition long_name_create :: request where
  "long_name_create =
     (plain_request CreateBird ''10.0.0.1'' 5000)\<lparr>body_name := Some ''abcdefghijk''\<rparr>"

definition same_ms_create :: request where
  "same_ms_create = (plain_request CreateBird ''10.0.0.2'' 3000)\<lparr>body_name := Some ''jay''\<rparr>"

definition valid_create :: request where
  "valid_create = (plain_request CreateBird ''10.0.0.2'' 4000)\<lparr>body_name := Some ''jay''\<rparr>"

definition jay :: bird where
  "jay = \<lparr>bird_id = 4000, name = ''jay'', imageUrl = None\<rparr>"

definition get_request :: "string \<Rightarrow> request" where
  "get_request p = id_request GetBird p ''10.0.0.2'' 6000"

text \<open>What follows a number in the text \<^verbatim>\<open>JSON.stringify\<close> writes: a comma, a line feed, or nothing.\<close>

definition delimited :: "string \<Rightarrow> bool" where
  "delimited rest =
     (case rest of [] \<Rightarrow> True
      | c # cs \<Rightarrow> c = CHR '','' \<or> c = CHR 0x0A)"

section \<open>Properties\<close>

subsection \<open>Middleware chains\<close>

lemma run_chain_server_field:
  assumes "\<And>m c. m \<in> set ms \<Longrightarrow> f (server (ctx_of (m req c))) = f (server c)"
  shows "f (server (ctx_of (run_chain ms req c))) = f (server c)"
  using assms
proof (induction ms arbitrary: c)
  case Nil
  then show ?case by simp
next
  case (Cons m ms)
  have step: "f (server (ctx_of (m req c))) = f (server c)"
    using Cons.prems by simp
  show ?case
  proof (cases "m req c")
    case (Next c')
    then have "f (server (ctx_of (run_chain (m # ms) req c))) = f (server (ctx_of (run_chain ms req c')))"
      by simp
    also have "\<dots> = f (server c')"
      using Cons.IH Cons.prems by simp
    finally show ?thesis using step Next by simp
  next
    case (Sent c' r)
    then show ?thesis using step by simp
  next
    case (Threw c' e)
    then show ?thesis using step by simp
  qed
qed

lemma run_chain_not_429:
  assumes "\<And>m c. m \<in> set ms \<Longrightarrow> \<not> rejected_429 (m req c)"
  shows "\<not> rejected_429 (run_chain ms req c)"
  using assms
proof (induction ms arbitrary: c)
  case Nil
  then show ?case by (simp add: rejected_429_def)
next
  case (Cons m ms)
  have step: "\<not> rejected_429 (m req c)"
    using Cons.prems by simp
  show ?case
  proof (cases "m req c")
    case (Next c')
    then show ?thesis using Cons.IH Cons.prems by simp
  next
    case (Sent c' r)
    then show ?thesis using step by simp
  next
    case (Threw c' e)
    then show ?thesis by (simp add: rejected_429_def)
  qed
qed

lemma logOperation_not_429: "\<not> rejected_429 (logOperation req c)"
  by (simp add: logOperation_def rejected_429_def Let_def split: desc_header.splits)

lemma upload_single_not_429: "\<not> rejected_429 (upload_single req c)"
  by (simp add: upload_single_def rejected_429_def send_def split: option.splits)

lemma create_bird_not_429: "\<not> rejected_429 (create_bird req c)"
  by (simp add: create_bird_def rejected_429_def send_def Let_def split: option.splits)

lemma update_bird_not_429: "\<not> rejected_429 (update_bird req c)"
  by (simp add: update_bird_def rejected_429_def send_def Let_def split: option.splits)

lemma delete_bird_not_429: "\<not> rejected_429 (delete_bird req c)"
  by (simp add: delete_bird_def rejected_429_def send_def Let_def split: option.splits)

lemma list_birds_not_429: "\<not> rejected_429 (list_birds req c)"
  by (simp add: list_birds_def rejected_429_def send_def Let_def)

lemma count_birds_not_429: "\<not> rejected_429 (count_birds req c)"
  by (simp add: count_birds_def rejected_429_def send_def)

lemma get_bird_not_429: "\<not> rejected_429 (get_bird req c)"
  by (simp add: get_bird_def rejected_429_def send_def Let_def split: option.splits)

lemma logOperation_ipOps:
  "ipOperationsFile (server (ctx_of (logOperation req c))) = ipOperationsFile (server c)"
  by (simp add: logOperation_def Let_def writeOperationLog_def split: desc_header.splits)

lemma upload_single_ipOps:
  "ipOperationsFile (server (ctx_of (upload_single req c))) = ipOperationsFile (server c)"
  by (simp add: upload_single_def send_def split: option.splits)

lemma create_bird_ipOps:
  "ipOperationsFile (server (ctx_of (create_bird req c))) = ipOperationsFile (server c)"
  by (simp add: create_bird_def send_def Let_def saveData_def split: option.splits)

lemma update_bird_ipOps:
  "ipOperationsFile (server (ctx_of (update_bird req c))) = ipOperationsFile (server c)"
  by (simp add: update_bird_def send_def Let_def saveData_def unlink_def split: option.splits)

lemma delete_bird_ipOps:
  "ipOperationsFile (server (ctx_of (delete_bird req c))) = ipOperationsFile (server c)"
  by (simp add: delete_bird_def send_def Let_def saveData_def unlink_def split: option.splits)


subsection \<open>The rate limiter\<close>

lemma limiter_reject:
  assumes "8 \<le> length (filter (\<lambda>op. now req - 86400000 < timestamp op \<and> ip op = getClientIp req)
                          (ipOperationsFile (server c)))"
  shows "operationRateLimiter req c =
           Sent c \<lparr>status = 429, ratelimit = ratelimit_headers c,
                   body = RateLimitBody 0 (Math_ceil_div (now req - 86400000 + 86400000 - now req) 1000)\<rparr>"
  using assms by (simp add: operationRateLimiter_def readIpOperations_def send_def Let_def)

lemma limiter_allow:
  assumes "\<not> 8 \<le> length (filter (\<lambda>op. now req - 86400000 < timestamp op \<and> ip op = getClientIp req)
                          (ipOperationsFile (server c)))"
  shows "operationRateLimiter req c =
           Next (c\<lparr>server := writeIpOperations
                      (filter (\<lambda>op. now req - 86400000 < timestamp op)
                         (ipOperationsFile (server c) @
                            [\<lparr>ip = getClientIp req, timestamp = now req,
                              op_method = req_method req, path = req_path req\<rparr>]))
                      (server c),
                   ratelimit_headers := Some (8, 8 - int (length (filter (\<lambda>op. now req - 86400000 < timestamp op \<and> ip op = getClientIp req)
                          (ipOperationsFile (server c)))) - 1)\<rparr>)"
  using assms by (simp add: operationRateLimiter_def readIpOperations_def send_def Let_def)

lemma chain_of_mutating:
  assumes "mutating req"
  shows "\<exists>ms. chain_of (route req) = operationRateLimiter # logOperation # ms
          \<and> set ms \<subseteq> {upload_single, create_bird, update_bird, delete_bird}"
  using assms by (auto simp: mutating_def chain_of_def)

lemma rest_not_429:
  assumes "set ms \<subseteq> {logOperation, upload_single, create_bird, update_bird, delete_bird}"
  shows "\<not> rejected_429 (run_chain ms req c)"
proof (rule run_chain_not_429)
  fix m c' assume "m \<in> set ms"
  with assms have "m \<in> {logOperation, upload_single, create_bird, update_bird, delete_bird}" by blast
  then show "\<not> rejected_429 (m req c')"
    using logOperation_not_429 upload_single_not_429 create_bird_not_429
      update_bird_not_429 delete_bird_not_429 by auto
qed

lemma handle_rejects_iff:
  assumes "mutating req"
  shows "rejected_429 (handle s req) \<longleftrightarrow>
           8 \<le> length (filter (\<lambda>op. now req - 86400000 < timestamp op \<and> ip op = getClientIp req)
                          (ipOperationsFile s))"
proof -
  obtain ms where ch: "chain_of (route req) = operationRateLimiter # logOperation # ms"
    and ms: "set ms \<subseteq> {upload_single, create_bird, update_bird, delete_bird}"
    using chain_of_mutating [OF assms] by blast
  let ?c = "\<lparr>server = s, ratelimit_headers = None, operationDesc = None, req_file = None\<rparr>"
  show ?thesis
  proof (cases "8 \<le> length (filter (\<lambda>op. now req - 86400000 < timestamp op \<and> ip op = getClientIp req)
                          (ipOperationsFile s))")
    case True
    then have "8 \<le> length (filter (\<lambda>op. now req - 86400000 < timestamp op \<and> ip op = getClientIp req)
                          (ipOperationsFile (server ?c)))" by simp
    from limiter_reject [OF this] True show ?thesis
      by (simp add: handle_def ch rejected_429_def)
  next
    case False
    then have "\<not> 8 \<le> length (filter (\<lambda>op. now req - 86400000 < timestamp op \<and> ip op = getClientIp req)
                          (ipOperationsFile (server ?c)))" by simp
    from limiter_allow [OF this] obtain c' where
      lim: "operationRateLimiter req ?c = Next c'" by blast
    have "set (logOperation # ms) \<subseteq> {logOperation, upload_single, create_bird, update_bird, delete_bird}"
      using ms by auto
    from rest_not_429 [OF this] have "\<not> rejected_429 (run_chain (logOperation # ms) req c')" .
    then have "\<not> rejected_429 (handle s req)"
      using lim by (simp add: handle_def ch)
    with False show ?thesis by simp
  qed
qed

lemma handle_rejected_outcome:
  assumes "mutating req"
    and "8 \<le> length (filter (\<lambda>op. now req - 86400000 < timestamp op \<and> ip op = getClientIp req)
                          (ipOperationsFile s))"
  shows "handle s req =
           Sent \<lparr>server = s, ratelimit_headers = None, operationDesc = None, req_file = None\<rparr>
                \<lparr>status = 429, ratelimit = None,
                 body = RateLimitBody 0 (Math_ceil_div (now req - 86400000 + 86400000 - now req) 1000)\<rparr>"
proof -
  obtain ms where ch: "chain_of (route req) = operationRateLimiter # logOperation # ms"
    using chain_of_mutating [OF assms(1)] by blast
  let ?c = "\<lparr>server = s, ratelimit_headers = None, operationDesc = None, req_file = None\<rparr>"
  have "8 \<le> length (filter (\<lambda>op. now req - 86400000 < timestamp op \<and> ip op = getClientIp req)
                          (ipOperationsFile (server ?c)))" using assms(2) by simp
  from limiter_reject [OF this] show ?thesis
    by (simp add: handle_def ch)
qed


lemma list_birds_server: "server (ctx_of (list_birds req c)) = server c"
  by (simp add: list_birds_def send_def Let_def)

lemma count_birds_server: "server (ctx_of (count_birds req c)) = server c"
  by (simp add: count_birds_def send_def)

lemma get_bird_server: "server (ctx_of (get_bird req c)) = server c"
  by (simp add: get_bird_def send_def Let_def split: option.splits)

lemma run_chain_single: "ctx_of (run_chain [m] req c) = ctx_of (m req c)"
  by (cases "m req c") simp_all

lemma state_after_read_only:
  assumes "\<not> mutating req"
  shows "state_after s req = s"
proof (cases "route req")
  case ListBirds
  then show ?thesis
    by (simp add: state_after_def handle_def chain_of_def run_chain_single list_birds_server del: run_chain.simps)
next
  case CountBirds
  then show ?thesis
    by (simp add: state_after_def handle_def chain_of_def run_chain_single count_birds_server del: run_chain.simps)
next
  case GetBird
  then show ?thesis
    by (simp add: state_after_def handle_def chain_of_def run_chain_single get_bird_server del: run_chain.simps)
next
  case CreateBird
  then show ?thesis using assms by (simp add: mutating_def)
next
  case UpdateBird
  then show ?thesis using assms by (simp add: mutating_def)
next
  case DeleteBird
  then show ?thesis using assms by (simp add: mutating_def)
qed

lemma rest_ipOps:
  assumes "set ms \<subseteq> {logOperation, upload_single, create_bird, update_bird, delete_bird}"
  shows "ipOperationsFile (server (ctx_of (run_chain ms req c))) = ipOperationsFile (server c)"
proof (rule run_chain_server_field)
  fix m c' assume "m \<in> set ms"
  with assms have "m \<in> {logOperation, upload_single, create_bird, update_bird, delete_bird}" by blast
  then show "ipOperationsFile (server (ctx_of (m req c'))) = ipOperationsFile (server c')"
    using logOperation_ipOps upload_single_ipOps create_bird_ipOps update_bird_ipOps
      delete_bird_ipOps by auto
qed

lemma state_after_ipOps:
  "ipOperationsFile (state_after s req) =
     (if mutating req \<and>
         \<not> 8 \<le> length (filter (\<lambda>op. now req - 86400000 < timestamp op \<and> ip op = getClientIp req)
                          (ipOperationsFile s))
      then filter (\<lambda>op. now req - 86400000 < timestamp op)
             (ipOperationsFile s @
                [\<lparr>ip = getClientIp req, timestamp = now req,
                  op_method = req_method req, path = req_path req\<rparr>])
      else ipOperationsFile s)"
proof (cases "mutating req")
  case False
  then show ?thesis by (simp add: state_after_read_only)
next
  case True
  obtain ms where ch: "chain_of (route req) = operationRateLimiter # logOperation # ms"
    and ms: "set ms \<subseteq> {upload_single, create_bird, update_bird, delete_bird}"
    using chain_of_mutating [OF True] by blast
  let ?c = "\<lparr>server = s, ratelimit_headers = None, operationDesc = None, req_file = None\<rparr>"
  show ?thesis
  proof (cases "8 \<le> length (filter (\<lambda>op. now req - 86400000 < timestamp op \<and> ip op = getClientIp req)
                          (ipOperationsFile s))")
    case rej: True
    from handle_rejected_outcome [OF True rej] show ?thesis
      using rej by (simp add: state_after_def)
  next
    case ok: False
    then have "\<not> 8 \<le> length (filter (\<lambda>op. now req - 86400000 < timestamp op \<and> ip op = getClientIp req)
                          (ipOperationsFile (server ?c)))" by simp
    note lim = limiter_allow [OF this]
    have sub: "set (logOperation # ms) \<subseteq> {logOperation, upload_single, create_bird, update_bird, delete_bird}"
      using ms by auto
    have "ipOperationsFile (state_after s req) =
            ipOperationsFile (server (ctx_of (run_chain (logOperation # ms) req
               (?c\<lparr>server := writeIpOperations
                      (filter (\<lambda>op. now req - 86400000 < timestamp op)
                         (ipOperationsFile (server ?c) @
                            [\<lparr>ip = getClientIp req, timestamp = now req,
                              op_method = req_method req, path = req_path req\<rparr>]))
                      (server ?c),
                   ratelimit_headers := Some (8, 8 - int (length (filter (\<lambda>op. now req - 86400000 < timestamp op \<and> ip op = getClientIp req)
                          (ipOperationsFile (server ?c)))) - 1)\<rparr>))))"
      unfolding state_after_def handle_def ch run_chain.simps(2) [of operationRateLimiter] lim
      by simp
    also have "\<dots> = filter (\<lambda>op. now req - 86400000 < timestamp op)
             (ipOperationsFile s @
                [\<lparr>ip = getClientIp req, timestamp = now req,
                  op_method = req_method req, path = req_path req\<rparr>])"
      unfolding rest_ipOps [OF sub] by (simp add: writeIpOperations_def)
    finally show ?thesis using True ok by simp
  qed
qed


lemma filter_ip_fresh:
  assumes "\<forall>op\<in>set ops. ip op = a \<longrightarrow> t - 86400000 < timestamp op" and "t' \<le> t"
  shows "filter (\<lambda>op. t' - 86400000 < timestamp op \<and> ip op = a) ops = filter (\<lambda>op. ip op = a) ops"
proof (rule filter_cong [OF refl])
  fix x assume "x \<in> set ops"
  with assms show "(t' - 86400000 < timestamp x \<and> ip x = a) = (ip x = a)" by auto
qed

lemma fresh_step:
  assumes fresh: "\<forall>op\<in>set (ipOperationsFile s). ip op = a \<longrightarrow> t - 86400000 < timestamp op"
    and lo: "t - 86400000 < now q" and hi: "now q \<le> t"
  shows "(\<forall>op\<in>set (ipOperationsFile (state_after s q)). ip op = a \<longrightarrow> t - 86400000 < timestamp op)
       \<and> length (filter (\<lambda>op. ip op = a) (ipOperationsFile (state_after s q))) =
           (if mutating q \<and> getClientIp q = a
               \<and> length (filter (\<lambda>op. ip op = a) (ipOperationsFile s)) < 8
            then Suc (length (filter (\<lambda>op. ip op = a) (ipOperationsFile s)))
            else length (filter (\<lambda>op. ip op = a) (ipOperationsFile s)))"
proof -
  let ?ops = "ipOperationsFile s"
  let ?e = "\<lparr>ip = getClientIp q, timestamp = now q, op_method = req_method q, path = req_path q\<rparr>"
  let ?allowed = "mutating q \<and>
         \<not> 8 \<le> length (filter (\<lambda>op. now q - 86400000 < timestamp op \<and> ip op = getClientIp q) ?ops)"
  have after: "ipOperationsFile (state_after s q) =
      (if ?allowed then filter (\<lambda>op. now q - 86400000 < timestamp op) (?ops @ [?e]) else ?ops)"
    by (rule state_after_ipOps)
  have keep: "filter (\<lambda>op. ip op = a) (filter (\<lambda>op. now q - 86400000 < timestamp op) ?ops)
                = filter (\<lambda>op. ip op = a) ?ops"
  proof -
    have "filter (\<lambda>op. ip op = a) (filter (\<lambda>op. now q - 86400000 < timestamp op) ?ops)
            = filter (\<lambda>op. now q - 86400000 < timestamp op \<and> ip op = a) ?ops"
      by (simp add: conj_commute)
    also have "\<dots> = filter (\<lambda>op. ip op = a) ?ops"
      by (rule filter_ip_fresh [OF fresh hi])
    finally show ?thesis .
  qed
  show ?thesis
  proof (cases ?allowed)
    case False
    have same: "ipOperationsFile (state_after s q) = ?ops" using after False by simp
    have "\<not> (mutating q \<and> getClientIp q = a \<and> length (filter (\<lambda>op. ip op = a) ?ops) < 8)"
    proof
      assume h: "mutating q \<and> getClientIp q = a \<and> length (filter (\<lambda>op. ip op = a) ?ops) < 8"
      then have "filter (\<lambda>op. now q - 86400000 < timestamp op \<and> ip op = getClientIp q) ?ops
                   = filter (\<lambda>op. ip op = a) ?ops"
        using filter_ip_fresh [OF fresh hi] by simp
      with h False show False by simp
    qed
    then show ?thesis using same fresh by simp
  next
    case True
    have new: "ipOperationsFile (state_after s q) =
                 filter (\<lambda>op. now q - 86400000 < timestamp op) ?ops @ [?e]"
      using after True by simp
    have part1: "\<forall>op\<in>set (ipOperationsFile (state_after s q)). ip op = a \<longrightarrow> t - 86400000 < timestamp op"
      unfolding new using fresh lo by auto
    show ?thesis
    proof (cases "getClientIp q = a")
      case same_ip: True
      have "filter (\<lambda>op. now q - 86400000 < timestamp op \<and> ip op = getClientIp q) ?ops
                   = filter (\<lambda>op. ip op = a) ?ops"
        using filter_ip_fresh [OF fresh hi] same_ip by simp
      with True have small: "length (filter (\<lambda>op. ip op = a) ?ops) < 8" by simp
      have "length (filter (\<lambda>op. ip op = a) (ipOperationsFile (state_after s q)))
              = Suc (length (filter (\<lambda>op. ip op = a) ?ops))"
        unfolding new using keep same_ip by simp
      then show ?thesis using part1 True same_ip small by simp
    next
      case other_ip: False
      have "length (filter (\<lambda>op. ip op = a) (ipOperationsFile (state_after s q)))
              = length (filter (\<lambda>op. ip op = a) ?ops)"
        unfolding new using keep other_ip by simp
      then show ?thesis using part1 other_ip by simp
    qed
  qed
qed

lemma serve_count:
  assumes "\<forall>op\<in>set (ipOperationsFile s). ip op = a \<longrightarrow> t - 86400000 < timestamp op"
    and "\<forall>q\<in>set reqs. t - 86400000 < now q \<and> now q \<le> t"
    and "length (filter (\<lambda>op. ip op = a) (ipOperationsFile s)) \<le> 8"
  shows "(\<forall>op\<in>set (ipOperationsFile (serve s reqs)). ip op = a \<longrightarrow> t - 86400000 < timestamp op)
       \<and> length (filter (\<lambda>op. ip op = a) (ipOperationsFile (serve s reqs))) =
           min 8 (length (filter (\<lambda>op. ip op = a) (ipOperationsFile s))
                  + length (filter (\<lambda>q. mutating q \<and> getClientIp q = a) reqs))"
  using assms
proof (induction reqs arbitrary: s)
  case Nil
  then show ?case by simp
next
  case (Cons q reqs)
  have lo: "t - 86400000 < now q" and hi: "now q \<le> t" using Cons.prems(2) by simp_all
  note step = fresh_step [OF Cons.prems(1) lo hi]
  have fresh': "\<forall>op\<in>set (ipOperationsFile (state_after s q)). ip op = a \<longrightarrow> t - 86400000 < timestamp op"
    using step by blast
  have cnt: "length (filter (\<lambda>op. ip op = a) (ipOperationsFile (state_after s q))) =
           (if mutating q \<and> getClientIp q = a
               \<and> length (filter (\<lambda>op. ip op = a) (ipOperationsFile s)) < 8
            then Suc (length (filter (\<lambda>op. ip op = a) (ipOperationsFile s)))
            else length (filter (\<lambda>op. ip op = a) (ipOperationsFile s)))"
    using step by blast
  have le8: "length (filter (\<lambda>op. ip op = a) (ipOperationsFile (state_after s q))) \<le> 8"
    using cnt Cons.prems(3) by (simp split: if_splits)
  have win: "\<forall>q\<in>set reqs. t - 86400000 < now q \<and> now q \<le> t" using Cons.prems(2) by simp
  note ih = Cons.IH [OF fresh' win le8]
  have "length (filter (\<lambda>op. ip op = a) (ipOperationsFile (serve s (q # reqs)))) =
          min 8 (length (filter (\<lambda>op. ip op = a) (ipOperationsFile (state_after s q)))
                  + length (filter (\<lambda>q. mutating q \<and> getClientIp q = a) reqs))"
    using ih by simp
  also have "\<dots> = min 8 (length (filter (\<lambda>op. ip op = a) (ipOperationsFile s))
                  + length (filter (\<lambda>q. mutating q \<and> getClientIp q = a) (q # reqs)))"
    using cnt Cons.prems(3) by (simp split: if_splits)
  finally show ?case using ih by simp
qed

text \<open>
  Claim C1. A mutating request (POST, PUT or DELETE on the birds routes) is answered with
  429 exactly when its address already has eight or more recorded operations within the
  last 24 hours. Entries of other addresses play no part in the decision. After any
  history of requests inside the window, from any addresses, starting with no entry for
  the address, the request is rejected exactly when the history holds eight or more
  mutating requests of the same address: the eighth such request succeeds, the ninth is
  rejected.
\<close>

theorem rate_limit_decision:
  assumes "mutating req"
  shows "(rejected_429 (handle s req) \<longleftrightarrow>
            8 \<le> length (filter (\<lambda>op. now req - 24 * 60 * 60 * 1000 < timestamp op \<and> ip op = getClientIp req)
                           (ipOperationsFile s)))
       \<and> (filter (\<lambda>op. ip op = getClientIp req) (ipOperationsFile s')
             = filter (\<lambda>op. ip op = getClientIp req) (ipOperationsFile s)
           \<longrightarrow> rejected_429 (handle s' req) = rejected_429 (handle s req))
       \<and> ((\<forall>op\<in>set (ipOperationsFile s0). ip op \<noteq> getClientIp req)
            \<and> (\<forall>q\<in>set reqs. now req - 24 * 60 * 60 * 1000 < now q \<and> now q \<le> now req)
           \<longrightarrow> (rejected_429 (handle (serve s0 reqs) req) \<longleftrightarrow>
                  8 \<le> length (filter (\<lambda>q. mutating q \<and> getClientIp q = getClientIp req) reqs)))"
proof (intro conjI impI)
  show "rejected_429 (handle s req) \<longleftrightarrow>
            8 \<le> length (filter (\<lambda>op. now req - 24 * 60 * 60 * 1000 < timestamp op \<and> ip op = getClientIp req)
                           (ipOperationsFile s))"
    using handle_rejects_iff [OF assms] by simp
next
  assume same: "filter (\<lambda>op. ip op = getClientIp req) (ipOperationsFile s')
             = filter (\<lambda>op. ip op = getClientIp req) (ipOperationsFile s)"
  have split: "\<And>ops. filter (\<lambda>op. now req - 86400000 < timestamp op \<and> ip op = getClientIp req) ops
          = filter (\<lambda>op. now req - 86400000 < timestamp op) (filter (\<lambda>op. ip op = getClientIp req) ops)"
    by (simp add: conj_commute)
  show "rejected_429 (handle s' req) = rejected_429 (handle s req)"
    unfolding handle_rejects_iff [OF assms] split same ..
next
  assume h: "(\<forall>op\<in>set (ipOperationsFile s0). ip op \<noteq> getClientIp req)
            \<and> (\<forall>q\<in>set reqs. now req - 24 * 60 * 60 * 1000 < now q \<and> now q \<le> now req)"
  let ?a = "getClientIp req"
  have none: "filter (\<lambda>op. ip op = ?a) (ipOperationsFile s0) = []"
    using h by (simp add: filter_empty_conv)
  have fresh: "\<forall>op\<in>set (ipOperationsFile s0). ip op = ?a \<longrightarrow> now req - 86400000 < timestamp op"
    using h by simp
  have win: "\<forall>q\<in>set reqs. now req - 86400000 < now q \<and> now q \<le> now req"
    using h by simp
  have le8: "length (filter (\<lambda>op. ip op = ?a) (ipOperationsFile s0)) \<le> 8"
    using none by simp
  note sc = serve_count [OF fresh win le8]
  have fresh': "\<forall>op\<in>set (ipOperationsFile (serve s0 reqs)). ip op = ?a \<longrightarrow> now req - 86400000 < timestamp op"
    using sc by blast
  have cnt: "length (filter (\<lambda>op. ip op = ?a) (ipOperationsFile (serve s0 reqs))) =
           min 8 (length (filter (\<lambda>q. mutating q \<and> getClientIp q = ?a) reqs))"
    using sc none by simp
  have "filter (\<lambda>op. now req - 86400000 < timestamp op \<and> ip op = ?a) (ipOperationsFile (serve s0 reqs))
          = filter (\<lambda>op. ip op = ?a) (ipOperationsFile (serve s0 reqs))"
    by (rule filter_ip_fresh [OF fresh' order_refl])
  then have "rejected_429 (handle (serve s0 reqs) req) \<longleftrightarrow>
               8 \<le> min 8 (length (filter (\<lambda>q. mutating q \<and> getClientIp q = ?a) reqs))"
    using handle_rejects_iff [OF assms, of "serve s0 reqs"] cnt by simp
  then show "rejected_429 (handle (serve s0 reqs) req) \<longleftrightarrow>
                  8 \<le> length (filter (\<lambda>q. mutating q \<and> getClientIp q = getClientIp req) reqs)"
    by simp
qed

theorem rate_limit_decision_witness:
  "mutating (plain_request CreateBird ''10.0.0.1'' 9000)
   \<and> rejected_429 (handle (serve fresh_state
          (map (id_request DeleteBird ''42'' ''10.0.0.1'') [1000, 2000, 3000, 4000, 5000, 6000, 7000, 8000]))
        (plain_request CreateBird ''10.0.0.1'' 9000))
   \<and> \<not> rejected_429 (handle (serve fresh_state
          (map (id_request DeleteBird ''42'' ''10.0.0.1'') [1000, 2000, 3000, 4000, 5000, 6000, 7000]))
        (plain_request CreateBird ''10.0.0.1'' 9000))
   \<and> \<not> rejected_429 (handle (serve fresh_state
          (map (id_request DeleteBird ''42'' ''10.0.0.2'') [1000, 2000, 3000, 4000, 5000, 6000, 7000, 8000]))
        (plain_request CreateBird ''10.0.0.1'' 9000))"
proof -
  have m: "mutating (plain_request CreateBird ''10.0.0.1'' 9000)"
    by (simp add: mutating_def plain_request_def)
  have ip: "\<And>r a t. getClientIp (plain_request r a t) = (if a = [] then ''unknown'' else a)"
    by (simp add: getClientIp_def plain_request_def js_or_def truthy_def)
  have tm: "\<And>r a t. now (plain_request r a t) = t"
    by (simp add: plain_request_def)
  have ip': "\<And>r p a t. getClientIp (id_request r p a t) = (if a = [] then ''unknown'' else a)"
    by (simp add: getClientIp_def id_request_def plain_request_def js_or_def truthy_def)
  have tm': "\<And>r p a t. now (id_request r p a t) = t"
    by (simp add: id_request_def plain_request_def)
  have mu: "\<And>p a t. mutating (id_request DeleteBird p a t)"
    by (simp add: mutating_def id_request_def plain_request_def)
  have fs: "ipOperationsFile fresh_state = []"
    by (simp add: fresh_state_def)
  show ?thesis
    using m
      rate_limit_decision [OF m, of fresh_state fresh_state fresh_state
        "map (id_request DeleteBird ''42'' ''10.0.0.1'') [1000, 2000, 3000, 4000, 5000, 6000, 7000, 8000]"]
      rate_limit_decision [OF m, of fresh_state fresh_state fresh_state
        "map (id_request DeleteBird ''42'' ''10.0.0.1'') [1000, 2000, 3000, 4000, 5000, 6000, 7000]"]
      rate_limit_decision [OF m, of fresh_state fresh_state fresh_state
        "map (id_request DeleteBird ''42'' ''10.0.0.2'') [1000, 2000, 3000, 4000, 5000, 6000, 7000, 8000]"]
    by (simp add: ip tm ip' tm' mu fs)
qed

text \<open>
  Claim C2. When the rate limiter rejects a request (the address has eight or more
  recorded operations in the last 24 hours), nothing is appended, nothing is pruned and
  no file is written: the whole server state, the rate-limit file and the trace of file
  operations included, is what it was.
\<close>

theorem rejection_leaves_state_unchanged:
  assumes "mutating req"
    and "8 \<le> length (filter (\<lambda>op. now req - 24 * 60 * 60 * 1000 < timestamp op \<and> ip op = getClientIp req)
                         (ipOperationsFile s))"
  shows "rejected_429 (handle s req)
       \<and> state_after s req = s
       \<and> ipOperationsFile (state_after s req) = ipOperationsFile s
       \<and> fs_trace (state_after s req) = fs_trace s"
proof -
  have many: "8 \<le> length (filter (\<lambda>op. now req - 86400000 < timestamp op \<and> ip op = getClientIp req)
                         (ipOperationsFile s))"
    using assms(2) by simp
  have "state_after s req = s"
    unfolding state_after_def handle_rejected_outcome [OF assms(1) many] by simp
  moreover have "rejected_429 (handle s req)"
    using handle_rejects_iff [OF assms(1)] many by simp
  ultimately show ?thesis by simp
qed

theorem rejection_leaves_state_unchanged_witness:
  "mutating (plain_request CreateBird ''10.0.0.1'' 100000000)
   \<and> rejected_429 (handle stale_state (plain_request CreateBird ''10.0.0.1'' 100000000))
   \<and> state_after stale_state (plain_request CreateBird ''10.0.0.1'' 100000000) = stale_state
   \<and> length (ipOperationsFile (state_after stale_state (plain_request CreateBird ''10.0.0.1'' 100000000))) = 9
   \<and> fs_trace (state_after stale_state (plain_request CreateBird ''10.0.0.1'' 100000000)) = []"
proof -
  have m: "mutating (plain_request CreateBird ''10.0.0.1'' 100000000)"
    by (simp add: mutating_def plain_request_def)
  have c: "8 \<le> length (filter (\<lambda>op. now (plain_request CreateBird ''10.0.0.1'' 100000000) - 24 * 60 * 60 * 1000 < timestamp op
                 \<and> ip op = getClientIp (plain_request CreateBird ''10.0.0.1'' 100000000))
                         (ipOperationsFile stale_state))"
    by (simp add: stale_state_def fresh_state_def plain_request_def getClientIp_def js_or_def truthy_def)
  show ?thesis
    using m rejection_leaves_state_unchanged [OF m c]
    by (simp add: stale_state_def fresh_state_def)
qed

text \<open>
  Claim C3. On each mutating route the rate limiter is registered before the operation
  logger, and a request answered with 429 leaves the operation log as it was: the log
  file is not written.
\<close>

theorem rate_limited_request_is_not_logged:
  assumes "mutating req" and "rejected_429 (handle s req)"
  shows "take 2 (chain_of (route req)) = [operationRateLimiter, logOperation]
       \<and> operationLogFile (state_after s req) = operationLogFile s
       \<and> WriteOperationLog \<notin> set (drop (length (fs_trace s)) (fs_trace (state_after s req)))"
proof -
  obtain ms where ch: "chain_of (route req) = operationRateLimiter # logOperation # ms"
    using chain_of_mutating [OF assms(1)] by blast
  have many: "8 \<le> length (filter (\<lambda>op. now req - 86400000 < timestamp op \<and> ip op = getClientIp req)
                         (ipOperationsFile s))"
    using handle_rejects_iff [OF assms(1)] assms(2) by simp
  have "state_after s req = s"
    unfolding state_after_def handle_rejected_outcome [OF assms(1) many] by simp
  then show ?thesis using ch by simp
qed

theorem rate_limited_request_is_not_logged_witness:
  "mutating (id_request UpdateBird ''3000'' ''10.0.0.1'' 100000000)
   \<and> rejected_429 (handle stale_state (id_request UpdateBird ''3000'' ''10.0.0.1'' 100000000))
   \<and> operationLogFile (state_after stale_state (id_request UpdateBird ''3000'' ''10.0.0.1'' 100000000)) = []"
proof -
  have m: "mutating (id_request UpdateBird ''3000'' ''10.0.0.1'' 100000000)"
    by (simp add: mutating_def id_request_def plain_request_def)
  have "8 \<le> length (filter (\<lambda>op. now (id_request UpdateBird ''3000'' ''10.0.0.1'' 100000000) - 24 * 60 * 60 * 1000 < timestamp op
                 \<and> ip op = getClientIp (id_request UpdateBird ''3000'' ''10.0.0.1'' 100000000))
                         (ipOperationsFile stale_state))"
    by (simp add: stale_state_def fresh_state_def id_request_def plain_request_def getClientIp_def js_or_def truthy_def)
  then have r: "rejected_429 (handle stale_state (id_request UpdateBird ''3000'' ''10.0.0.1'' 100000000))"
    using handle_rejects_iff [OF m, of stale_state] by simp
  show ?thesis
    using m r rate_limited_request_is_not_logged [OF m r]
    by (simp add: stale_state_def fresh_state_def)
qed

lemma Math_ceil_div_ceiling:
  "Math_ceil_div x d = \<lceil>(of_int x :: real) / of_int d\<rceil>"
  by (simp add: Math_ceil_div_def ceiling_divide_eq_div)

lemma rejected_reset_time_zero:
  assumes "mutating req" and "handle s req = Sent c r" and "status r = 429"
  shows "resetTime r = Some 0"
proof -
  have "rejected_429 (handle s req)"
    using assms(2,3) by (simp add: rejected_429_def)
  then have many: "8 \<le> length (filter (\<lambda>op. now req - 86400000 < timestamp op \<and> ip op = getClientIp req)
                         (ipOperationsFile s))"
    using handle_rejects_iff [OF assms(1)] by simp
  have r: "r = \<lparr>status = 429, ratelimit = None,
                 body = RateLimitBody 0 (Math_ceil_div (now req - 86400000 + 86400000 - now req) 1000)\<rparr>"
    using handle_rejected_outcome [OF assms(1) many] assms(2) by simp
  show ?thesis
    unfolding r by (simp add: resetTime_def Math_ceil_div_def)
qed

text \<open>
  Claim C4 fails on the code. The source adds 24 hours to \<^verbatim>\<open>twentyFourHoursAgo\<close>, which is
  \<open>now - 24h\<close>, so the hint is \<open>\<lceil>0 / 1000\<rceil> = 0\<close> for every rejected request, whatever the
  recorded operations are. On \<open>stale_state\<close> a DELETE at the time 100000000 is answered
  with 429 and \<^verbatim>\<open>resetTime\<close> 0, the same request one second later is rejected again, and
  the earliest of the eight counted entries (at 90000000) leaves the window only 76400
  seconds after the first request.
\<close>

theorem reset_time_hint_is_zero:
  "rejected_429 (handle stale_state (id_request DeleteBird ''42'' ''10.0.0.1'' 100000000))
   \<and> map_option resetTime
         (response_of (handle stale_state (id_request DeleteBird ''42'' ''10.0.0.1'' 100000000)))
       = Some (Some 0)
   \<and> rejected_429
         (handle (state_after stale_state (id_request DeleteBird ''42'' ''10.0.0.1'' 100000000))
            (id_request DeleteBird ''42'' ''10.0.0.1'' 100001000))
   \<and> Math_ceil_div (90000000 + 24 * 60 * 60 * 1000 - 100000000) 1000 = 76400"
proof -
  let ?r = "id_request DeleteBird ''42'' ''10.0.0.1'' 100000000"
  let ?later = "id_request DeleteBird ''42'' ''10.0.0.1'' 100001000"
  have m: "mutating ?r" "mutating ?later"
    by (simp_all add: mutating_def id_request_def plain_request_def)
  have many: "8 \<le> length (filter (\<lambda>op. now ?r - 86400000 < timestamp op \<and> ip op = getClientIp ?r)
                         (ipOperationsFile stale_state))"
    by (simp add: stale_state_def fresh_state_def id_request_def plain_request_def getClientIp_def
        js_or_def truthy_def)
  have many': "8 \<le> length (filter (\<lambda>op. now ?later - 86400000 < timestamp op \<and> ip op = getClientIp ?later)
                         (ipOperationsFile stale_state))"
    by (simp add: stale_state_def fresh_state_def id_request_def plain_request_def getClientIp_def
        js_or_def truthy_def)
  note h = handle_rejected_outcome [OF m(1) many]
  have same: "state_after stale_state ?r = stale_state"
    unfolding state_after_def h by simp
  have 1: "rejected_429 (handle stale_state ?r)"
    using handle_rejects_iff [OF m(1), of stale_state] many by simp
  have 2: "map_option resetTime (response_of (handle stale_state ?r)) = Some (Some 0)"
    unfolding h by (simp add: resetTime_def Math_ceil_div_def)
  have 3: "rejected_429 (handle (state_after stale_state ?r) ?later)"
    unfolding same using handle_rejects_iff [OF m(2), of stale_state] many' by simp
  have 4: "Math_ceil_div (90000000 + 24 * 60 * 60 * 1000 - 100000000) 1000 = 76400"
    by (simp add: Math_ceil_div_def)
  show ?thesis using 1 2 3 4 by simp
qed

lemma findIndex_None: "findIndex p xs = None \<longleftrightarrow> (\<forall>x\<in>set xs. \<not> p x)"
  by (induction xs) auto

lemma logOperation_next:
  assumes "x_operation_desc req \<noteq> MalformedDesc"
  shows "logOperation req c =
    Next (c\<lparr>server := writeOperationLog
               (filter (\<lambda>log. thirtyDaysAgo req < log_timestamp log)
                  (operationLogFile (server c)
                     @ [\<lparr>log_timestamp = now req, log_ip = getClientIp req,
                          operation = (case x_operation_desc req of
                                         Desc d \<Rightarrow> d
                                       | _ \<Rightarrow> method_text (req_method req) @ '' '' @ req_path req),
                          log_method = req_method req, log_path = req_path req,
                          userAgent = user_agent req\<rparr>]))
               (server c),
            operationDesc := Some (case x_operation_desc req of
                                      Desc d \<Rightarrow> d
                                    | _ \<Rightarrow> method_text (req_method req) @ '' '' @ req_path req)\<rparr>)"
  using assms
  by (simp add: logOperation_def Let_def readOperationLog_def split: desc_header.splits)

subsection \<open>Failed mutations\<close>

lemma limiter_then_logger:
  assumes m: "mutating req"
    and ok: "\<not> 8 \<le> length (filter (\<lambda>op. now req - 86400000 < timestamp op \<and> ip op = getClientIp req)
                          (ipOperationsFile s))"
    and hd: "x_operation_desc req \<noteq> MalformedDesc"
  shows "handle s req =
    run_chain (drop 2 (chain_of (route req))) req
      \<lparr>server = s\<lparr>ipOperationsFile :=
                    filter (\<lambda>op. now req - 86400000 < timestamp op) (ipOperationsFile s)
                      @ [\<lparr>ip = getClientIp req, timestamp = now req,
                           op_method = req_method req, path = req_path req\<rparr>],
                  operationLogFile :=
                    filter (\<lambda>log. thirtyDaysAgo req < log_timestamp log)
                      (operationLogFile s
                         @ [\<lparr>log_timestamp = now req, log_ip = getClientIp req,
                              operation = (case x_operation_desc req of
                                             Desc d \<Rightarrow> d
                                           | _ \<Rightarrow> method_text (req_method req) @ '' '' @ req_path req),
                              log_method = req_method req, log_path = req_path req,
                              userAgent = user_agent req\<rparr>]),
                  fs_trace := fs_trace s @ [WriteIpOperations, WriteOperationLog]\<rparr>,
       ratelimit_headers = Some (8, 8 - int (length (filter (\<lambda>op. now req - 86400000 < timestamp op \<and> ip op = getClientIp req)
                          (ipOperationsFile s))) - 1),
       operationDesc = Some (case x_operation_desc req of
                                          Desc d \<Rightarrow> d
                                        | _ \<Rightarrow> method_text (req_method req) @ '' '' @ req_path req),
       req_file = None\<rparr>"
proof -
  obtain ms where ch: "chain_of (route req) = operationRateLimiter # logOperation # ms"
    using chain_of_mutating [OF m] by blast
  let ?c = "\<lparr>server = s, ratelimit_headers = None, operationDesc = None, req_file = None\<rparr>"
  have "\<not> 8 \<le> length (filter (\<lambda>op. now req - 86400000 < timestamp op \<and> ip op = getClientIp req)
                          (ipOperationsFile (server ?c)))" using ok by simp
  note lim = limiter_allow [OF this]
  show ?thesis
    unfolding handle_def ch run_chain.simps(2) [of operationRateLimiter] lim
      run_chain.simps(2) [of logOperation] logOperation_next [OF hd]
    by (simp add: writeIpOperations_def writeOperationLog_def)
qed


text \<open>
  Claim C10. A mutating request that passes the rate limiter and reaches its handler (the
  operation header decodes, the upload is within multer's limit) and fails there, a PUT or
  DELETE for an id no stored bird has (404) or a POST with a missing or too long name or an
  image above 1 MiB (400), leaves the birds and the data file as they were; the rate-limit
  entry for its address and the log entry are appended all the same, and both files are
  written. The entries carry the raw path of the request; the log keeps the entries newer
  than the cut-off \<open>thirtyDaysAgo\<close>, whatever it is, as long as it lies before the clock
  reading (thirty calendar days back always does).
\<close>

theorem failed_mutation_is_still_recorded:
  assumes m: "mutating req"
    and pass: "\<not> 8 \<le> length (filter (\<lambda>op. now req - 24 * 60 * 60 * 1000 < timestamp op \<and> ip op = getClientIp req)
                              (ipOperationsFile s))"
    and hdr: "x_operation_desc req \<noteq> MalformedDesc"
    and cut: "thirtyDaysAgo req < now req"
    and upl: "route req = DeleteBird
              \<or> (case image_part req of None \<Rightarrow> True | Some f \<Rightarrow> file_size f \<le> 5 * 1024 * 1024)"
    and fails: "(route req = CreateBird
                  \<and> (\<not> truthy (body_name req)
                     \<or> (\<exists>n. body_name req = Some n \<and> 10 < length n)
                     \<or> (\<exists>f. image_part req = Some f \<and> 1048576 < file_size f)))
              \<or> ((route req = UpdateBird \<or> route req = DeleteBird)
                  \<and> (\<forall>b\<in>set (birds s). Some (bird_id b) \<noteq> parseInt (Some (params_id req))))"
  shows "(\<exists>c r. handle s req = Sent c r \<and> status r = (if route req = CreateBird then 400 else 404))
       \<and> birds (state_after s req) = birds s
       \<and> dataFile (state_after s req) = dataFile s
       \<and> ipOperationsFile (state_after s req) =
           filter (\<lambda>op. now req - 24 * 60 * 60 * 1000 < timestamp op) (ipOperationsFile s)
             @ [\<lparr>ip = getClientIp req, timestamp = now req,
                  op_method = req_method req, path = req_path req\<rparr>]
       \<and> operationLogFile (state_after s req) =
           filter (\<lambda>log. thirtyDaysAgo req < log_timestamp log) (operationLogFile s)
             @ [\<lparr>log_timestamp = now req, log_ip = getClientIp req,
                  operation = (case x_operation_desc req of
                                 Desc d \<Rightarrow> d
                               | _ \<Rightarrow> method_text (req_method req) @ '' '' @ req_path req),
                  log_method = req_method req, log_path = req_path req,
                  userAgent = user_agent req\<rparr>]
       \<and> fs_trace (state_after s req) =
           fs_trace s @ [WriteIpOperations, WriteOperationLog]
             @ (if route req = DeleteBird then []
                else case image_part req of None \<Rightarrow> [] | Some f \<Rightarrow> [StoreImage (filename f)])"
proof -
  have ok: "\<not> 8 \<le> length (filter (\<lambda>op. now req - 86400000 < timestamp op \<and> ip op = getClientIp req)
                          (ipOperationsFile s))"
    using pass by simp
  note h = limiter_then_logger [OF m ok hdr]
  consider (post) "route req = CreateBird" | (put) "route req = UpdateBird"
    | (del) "route req = DeleteBird"
    using m by (auto simp: mutating_def)
  then show ?thesis
  proof cases
    case post
    have bad: "\<not> truthy (body_name req)
                     \<or> (\<exists>n. body_name req = Some n \<and> 10 < length n)
                     \<or> (\<exists>f. image_part req = Some f \<and> 1048576 < file_size f)"
      using fails post by simp
    have small: "case image_part req of None \<Rightarrow> True | Some f \<Rightarrow> file_size f \<le> 5 * 1024 * 1024"
      using upl post by simp
    show ?thesis
      unfolding state_after_def h using post bad small cut
      by (auto simp: chain_of_def upload_single_def create_bird_def send_def truthy_def
          split: option.splits)
  next
    case put
    have missing: "findIndex (\<lambda>bird. Some (bird_id bird) = parseInt (Some (params_id req))) (birds s) = None"
      using fails put by (simp add: findIndex_None)
    have small: "case image_part req of None \<Rightarrow> True | Some f \<Rightarrow> file_size f \<le> 5 * 1024 * 1024"
      using upl put by simp
    show ?thesis
      unfolding state_after_def h using put missing small cut
      by (auto simp: chain_of_def upload_single_def update_bird_def send_def
          split: option.splits)
  next
    case del
    have missing: "findIndex (\<lambda>bird. Some (bird_id bird) = parseInt (Some (params_id req))) (birds s) = None"
      using fails del by (simp add: findIndex_None)
    show ?thesis
      unfolding state_after_def h using del missing cut
      by (auto simp: chain_of_def delete_bird_def send_def)
  qed
qed

theorem failed_mutation_is_still_recorded_witness:
  "mutating encoded_update
   \<and> thirtyDaysAgo encoded_update < now encoded_update
   \<and> map_option status (response_of (handle logged_state encoded_update)) = Some 404
   \<and> birds (state_after logged_state encoded_update) = []
   \<and> dataFile (state_after logged_state encoded_update) = None
   \<and> ipOperationsFile (state_after logged_state encoded_update)
       = [\<lparr>ip = ''10.0.0.1'', timestamp = 3000000000, op_method = PUT, path = ''/api/birds/%342''\<rparr>]
   \<and> operationLogFile (state_after logged_state encoded_update)
       = [old_log_entry,
          \<lparr>log_timestamp = 3000000000, log_ip = ''10.0.0.1'', operation = ''PUT /api/birds/%342'',
           log_method = PUT, log_path = ''/api/birds/%342'', userAgent = None\<rparr>]
   \<and> fs_trace (state_after logged_state encoded_update)
       = [WriteIpOperations, WriteOperationLog]"
proof -
  let ?r = "encoded_update"
  have f: "route ?r = UpdateBird" "now ?r = 3000000000" "thirtyDaysAgo ?r = 404400000"
    "req_path ?r = ''/api/birds/%342''" "params_id ?r = ''42''" "image_part ?r = None"
    "x_operation_desc ?r = NoDesc" "user_agent ?r = None" "getClientIp ?r = ''10.0.0.1''"
    "req_method ?r = PUT"
    by (simp_all add: encoded_update_def plain_request_def getClientIp_def js_or_def truthy_def
        req_method_def)
  have st: "birds logged_state = []" "dataFile logged_state = None"
    "ipOperationsFile logged_state = []" "operationLogFile logged_state = [old_log_entry]"
    "fs_trace logged_state = []"
    by (simp_all add: logged_state_def fresh_state_def)
  have m: "mutating ?r"
    by (simp add: mutating_def f)
  have pass: "\<not> 8 \<le> length (filter (\<lambda>op. now ?r - 24 * 60 * 60 * 1000 < timestamp op \<and> ip op = getClientIp ?r)
                              (ipOperationsFile logged_state))"
    by (simp add: st)
  have hdr: "x_operation_desc ?r \<noteq> MalformedDesc"
    by (simp add: f)
  have cut: "thirtyDaysAgo ?r < now ?r"
    by (simp add: f)
  have upl: "route ?r = DeleteBird
              \<or> (case image_part ?r of None \<Rightarrow> True | Some f \<Rightarrow> file_size f \<le> 5 * 1024 * 1024)"
    by (simp add: f)
  have fails: "(route ?r = CreateBird
                  \<and> (\<not> truthy (body_name ?r)
                     \<or> (\<exists>n. body_name ?r = Some n \<and> 10 < length n)
                     \<or> (\<exists>f. image_part ?r = Some f \<and> 1048576 < file_size f)))
              \<or> ((route ?r = UpdateBird \<or> route ?r = DeleteBird)
                  \<and> (\<forall>b\<in>set (birds logged_state). Some (bird_id b) \<noteq> parseInt (Some (params_id ?r))))"
    by (simp add: f st)
  note t = failed_mutation_is_still_recorded [OF m pass hdr cut upl fails]
  have resp: "map_option status (response_of (handle logged_state ?r)) = Some 404"
    using t by (auto simp: f)
  have old: "log_timestamp old_log_entry = 406000000"
    by (simp add: old_log_entry_def)
  show ?thesis
    using m cut resp t
    by (simp add: f st old method_text_def)
qed

subsection \<open>Listing\<close>

lemma starts_with_iff: "starts_with s t \<longleftrightarrow> (\<exists>v. s = t @ v)"
  by (induction s t rule: starts_with.induct) auto

lemma includes_str_iff: "includes_str s t \<longleftrightarrow> (\<exists>u v. s = u @ t @ v)"
proof (induction s)
  case Nil
  then show ?case by auto
next
  case (Cons a s)
  show ?case
  proof
    assume "includes_str (a # s) t"
    then consider "starts_with (a # s) t" | "includes_str s t" by auto
    then show "\<exists>u v. a # s = u @ t @ v"
    proof cases
      case 1
      then obtain v where "a # s = t @ v" using starts_with_iff by blast
      then have "a # s = [] @ t @ v" by simp
      then show ?thesis by blast
    next
      case 2
      then obtain u v where "s = u @ t @ v" using Cons.IH by blast
      then have "a # s = (a # u) @ t @ v" by simp
      then show ?thesis by blast
    qed
  next
    assume "\<exists>u v. a # s = u @ t @ v"
    then obtain u v where eq: "a # s = u @ t @ v" by blast
    show "includes_str (a # s) t"
    proof (cases u)
      case Nil
      then have "starts_with (a # s) t" using eq starts_with_iff by auto
      then show ?thesis by simp
    next
      case (Cons b u')
      then have "s = u' @ t @ v" using eq by simp
      then have "includes_str s t" using Cons.IH by blast
      then show ?thesis by simp
    qed
  qed
qed

lemma slice_page:
  "slice xs (int a) (int a + 48) = take 48 (drop a xs)"
proof -
  have e: "nat (int a + 48) = a + 48" by simp
  have "slice xs (int a) (int a + 48)
          = take (min (a + 48) (length xs) - min a (length xs)) (drop (min a (length xs)) xs)"
    by (simp add: slice_def slice_index_def Let_def e del: of_nat_add)
  also have "\<dots> = take 48 (drop a xs)"
  proof (cases "a \<le> length xs")
    case True
    then have "min (a + 48) (length xs) - min a (length xs) = min 48 (length (drop a xs))"
      by (auto simp: min_def)
    then show ?thesis using True by (simp add: min_def)
  next
    case False
    then show ?thesis by (simp add: min_def)
  qed
  finally show ?thesis .
qed

text \<open>
  Claim C5. For a page query that parses to \<open>k \<ge> 1\<close> and a search string, the list
  handler keeps the birds whose lower-cased name holds the lower-cased search string as a
  contiguous substring (all birds when the search string is empty or absent), answers with
  the elements at the indices from \<open>(k - 1) * 48\<close> up to, not including, \<open>k * 48\<close> of that
  list, and sets \<open>hasMore\<close> exactly when \<open>k * 48\<close> is less than its length.
\<close>

theorem list_birds_page:
  assumes "route req = ListBirds" and "parseInt (query_page req) = Some k" and "1 \<le> k"
  shows "handle s req =
           (let search = (case query_search req of None \<Rightarrow> [] | Some t \<Rightarrow> t);
                filtered =
                  (if search = [] then birds s
                   else filter (\<lambda>b. \<exists>u v. toLowerCase (name b) = u @ toLowerCase search @ v) (birds s))
            in Sent \<lparr>server = s, ratelimit_headers = None, operationDesc = None, req_file = None\<rparr>
                 \<lparr>status = 200, ratelimit = None,
                  body = BirdsPage (take 48 (drop (nat ((k - 1) * 48)) filtered))
                                   (k * 48 < int (length filtered))\<rparr>)"
proof -
  let ?c = "\<lparr>server = s, ratelimit_headers = None, operationDesc = None, req_file = None\<rparr>"
  have search: "(case js_or (query_search req) (Some []) of Some t \<Rightarrow> t | None \<Rightarrow> [])
                  = (case query_search req of None \<Rightarrow> [] | Some t \<Rightarrow> t)"
    by (simp add: js_or_def truthy_def split: option.splits)
  have page: "(case parseInt (query_page req) of None \<Rightarrow> 1 | Some p \<Rightarrow> if p = 0 then 1 else p) = k"
    using assms(2,3) by simp
  have start: "(k - 1) * 48 = int (nat ((k - 1) * 48))"
    using assms(3) by simp
  have sl: "\<And>xs :: bird list. slice xs ((k - 1) * 48) ((k - 1) * 48 + 48)
              = take 48 (drop (nat ((k - 1) * 48)) xs)"
    using slice_page [of _ "nat ((k - 1) * 48)"] start by simp
  have more: "\<And>n. ((k - 1) * 48 + 48 < n) = (k * 48 < n)"
    by (simp add: algebra_simps)
  have "list_birds req ?c =
          send ?c 200
            (BirdsPage
               (take 48 (drop (nat ((k - 1) * 48))
                  (if (case query_search req of None \<Rightarrow> [] | Some t \<Rightarrow> t) \<noteq> []
                   then filter (\<lambda>bird. includes_str (toLowerCase (name bird))
                                  (toLowerCase (case query_search req of None \<Rightarrow> [] | Some t \<Rightarrow> t)))
                          (birds (server ?c))
                   else birds (server ?c))))
               (k * 48 < int (length
                  (if (case query_search req of None \<Rightarrow> [] | Some t \<Rightarrow> t) \<noteq> []
                   then filter (\<lambda>bird. includes_str (toLowerCase (name bird))
                                  (toLowerCase (case query_search req of None \<Rightarrow> [] | Some t \<Rightarrow> t)))
                          (birds (server ?c))
                   else birds (server ?c)))))"
    unfolding list_birds_def Let_def search page sl more ..
  then show ?thesis
    using assms(1) by (simp add: handle_def chain_of_def Let_def includes_str_iff send_def)
qed

lemma list_request_sample:
  "handle sample_state (list_request page search) =
     list_birds (list_request page search)
       \<lparr>server = sample_state, ratelimit_headers = None, operationDesc = None, req_file = None\<rparr>"
  by (simp add: handle_def chain_of_def list_request_def plain_request_def
      split: outcome.splits)

theorem list_birds_page_witness:
  "route (list_request (Some ''1'') (Some ''RO'')) = ListBirds
   \<and> parseInt (query_page (list_request (Some ''1'') (Some ''RO''))) = Some 1
   \<and> response_of (handle sample_state (list_request (Some ''1'') (Some ''RO'')))
       = Some \<lparr>status = 200, ratelimit = None, body = BirdsPage [robin, crow] False\<rparr>"
proof -
  have r: "route (list_request (Some ''1'') (Some ''RO'')) = ListBirds"
    by (simp add: list_request_def plain_request_def)
  have p: "parseInt (query_page (list_request (Some ''1'') (Some ''RO''))) = Some 1"
    by (simp add: list_request_def plain_request_def parseInt_def is_space_def
        parse_magnitude_def has_digit_def digit_val_def)
  have k: "(1::int) \<le> 1" by simp
  have q: "query_search (list_request (Some ''1'') (Some ''RO'')) = Some ''RO''"
    by (simp add: list_request_def plain_request_def)
  have f: "filter (\<lambda>b. includes_str (toLowerCase (name b)) (toLowerCase ''RO'')) (birds sample_state)
             = [robin, crow]"
    by code_simp
  show ?thesis
    using r p list_birds_page [OF r p k, of sample_state]
    by (simp add: q Let_def includes_str_iff [symmetric] f)
qed

lemma run_chain_single_response: "response_of (run_chain [m] req c) = response_of (m req c)"
  by (cases "m req c") simp_all

text \<open>
  Claim C6, as the code has it. A page query that is absent, that does not start with a
  number, or that parses to 0 gives the answer of page 1. (A negative page is passed on to
  \<^verbatim>\<open>slice\<close> as it is and does not give the answer of page 1.)
\<close>

theorem page_falls_back_to_one:
  assumes "route req = ListBirds"
    and "parseInt (query_page req) = None \<or> parseInt (query_page req) = Some 0"
  shows "response_of (handle s req) = response_of (handle s (req\<lparr>query_page := Some ''1''\<rparr>))"
proof -
  have one: "parseInt (Some ''1'') = Some 1"
    by code_simp
  have "list_birds req c = list_birds (req\<lparr>query_page := Some ''1''\<rparr>) c" for c
    using assms(2) by (auto simp: list_birds_def one)
  then show ?thesis
    using assms(1) by (simp add: handle_def chain_of_def run_chain_single_response del: run_chain.simps)
qed

theorem page_falls_back_to_one_witness:
  "route (list_request (Some ''0'') None) = ListBirds
   \<and> parseInt (query_page (list_request (Some ''0'') None)) = Some 0
   \<and> response_of (handle sample_state (list_request (Some ''0'') None))
       = Some \<lparr>status = 200, ratelimit = None, body = BirdsPage [robin, wren, crow] False\<rparr>
   \<and> response_of (handle sample_state (list_request (Some ''1'') None))
       = Some \<lparr>status = 200, ratelimit = None, body = BirdsPage [robin, wren, crow] False\<rparr>"
proof -
  have r: "route (list_request (Some ''0'') None) = ListBirds"
    by (simp add: list_request_def plain_request_def)
  have p: "parseInt (query_page (list_request (Some ''0'') None)) = Some 0"
    by code_simp
  have e: "(list_request (Some ''0'') None)\<lparr>query_page := Some ''1''\<rparr> = list_request (Some ''1'') None"
    by (simp add: list_request_def)
  have one: "response_of (handle sample_state (list_request (Some ''1'') None))
       = Some \<lparr>status = 200, ratelimit = None, body = BirdsPage [robin, wren, crow] False\<rparr>"
    by code_simp
  show ?thesis
    using r p one page_falls_back_to_one [OF r disjI2 [OF p], of sample_state]
    by (simp add: e)
qed

text \<open>
  Claim C6 as stated fails: the page \<^verbatim>\<open>-1\<close> parses to \<open>-1\<close>, and on three birds its answer
  has no items and \<open>hasMore\<close> set, where page 1 has the three birds and \<open>hasMore\<close> unset.
\<close>

theorem negative_page_is_not_page_one:
  "route (list_request (Some ''-1'') None) = ListBirds
   \<and> parseInt (query_page (list_request (Some ''-1'') None)) = Some (- 1)
   \<and> response_of (handle sample_state (list_request (Some ''-1'') None))
       = Some \<lparr>status = 200, ratelimit = None, body = BirdsPage [] True\<rparr>
   \<and> response_of (handle sample_state (list_request (Some ''1'') None))
       = Some \<lparr>status = 200, ratelimit = None, body = BirdsPage [robin, wren, crow] False\<rparr>"
  by code_simp

subsection \<open>Decimal text of integers\<close>

declare digits.simps [simp del]

lemma digit_val_decimal: "(d::nat) < 10 \<Longrightarrow> digit_val (char_of (48 + d)) = Some d"
  by (simp add: digit_val_def Let_def)

lemma digits_decimal: "c \<in> set (digits n) \<Longrightarrow> \<exists>d::nat. d < 10 \<and> c = char_of (48 + d)"
proof (induction n rule: digits.induct)
  case (1 n)
  show ?case
  proof (cases "n < 10")
    case True
    then show ?thesis using "1.prems" by (auto simp: digits.simps [of n])
  next
    case False
    then have "c \<in> set (digits (n div 10)) \<or> c = char_of (48 + n mod 10)"
      using "1.prems" by (auto simp: digits.simps [of n])
    then show ?thesis
    proof
      assume "c \<in> set (digits (n div 10))"
      then show ?thesis using "1.IH" False by simp
    next
      assume "c = char_of (48 + n mod 10)"
      moreover have "n mod 10 < 10" by simp
      ultimately show ?thesis by blast
    qed
  qed
qed

lemma digits_not_empty: "digits n \<noteq> []"
  by (simp add: digits.simps [of n])

lemma read_digits_append:
  assumes "\<forall>c\<in>set xs. \<exists>d::nat. d < 10 \<and> c = char_of (48 + d)"
  shows "read_digits 10 acc (xs @ ys) = read_digits 10 (read_digits 10 acc xs) ys"
  using assms
proof (induction xs arbitrary: acc)
  case Nil
  then show ?case by simp
next
  case (Cons c xs)
  then obtain d :: nat where d: "d < 10" "c = char_of (48 + d)" by auto
  then have "digit_val c = Some d" using digit_val_decimal by simp
  then show ?case using d Cons by simp
qed

lemma read_digits_digits: "read_digits 10 0 (digits n) = n"
proof (induction n rule: digits.induct)
  case (1 n)
  show ?case
  proof (cases "n < 10")
    case True
    then show ?thesis by (simp add: digits.simps [of n] digit_val_decimal)
  next
    case False
    have all: "\<forall>c\<in>set (digits (n div 10)). \<exists>d::nat. d < 10 \<and> c = char_of (48 + d)"
      using digits_decimal by blast
    have "read_digits 10 0 (digits n)
            = read_digits 10 (read_digits 10 0 (digits (n div 10))) [char_of (48 + n mod 10)]"
      using False read_digits_append [OF all] by (simp add: digits.simps [of n])
    also have "\<dots> = read_digits 10 (n div 10) [char_of (48 + n mod 10)]"
      using "1.IH" False by simp
    also have "\<dots> = n"
      by (simp add: digit_val_decimal)
    finally show ?thesis .
  qed
qed

lemma decimal_char_facts:
  assumes "(d::nat) < 10"
  shows "\<not> is_space (char_of (48 + d))" and "char_of (48 + d) \<noteq> CHR ''-''"
    and "char_of (48 + d) \<noteq> CHR ''+''" and "char_of (48 + d) \<noteq> CHR ''x''"
    and "char_of (48 + d) \<noteq> CHR ''X''"
  using assms by (simp_all add: is_space_def char_of_eq_iff take_bit_eq_mod)



lemma take2_not_hex:
  assumes "\<forall>c\<in>set xs. c \<noteq> CHR ''x'' \<and> c \<noteq> CHR ''X''"
  shows "take 2 xs \<noteq> ''0x''" and "take 2 xs \<noteq> ''0X''"
proof -
  have sub: "set (take 2 xs) \<subseteq> set xs" by (rule set_take_subset)
  show "take 2 xs \<noteq> ''0x''"
  proof
    assume "take 2 xs = ''0x''"
    then have "CHR ''x'' \<in> set (take 2 xs)" by simp
    with sub assms show False by blast
  qed
  show "take 2 xs \<noteq> ''0X''"
  proof
    assume "take 2 xs = ''0X''"
    then have "CHR ''X'' \<in> set (take 2 xs)" by simp
    with sub assms show False by blast
  qed
qed

lemma parse_magnitude_digits: "parse_magnitude (digits n) = Some n"
proof -
  have all: "\<forall>c\<in>set (digits n). \<exists>d::nat. d < 10 \<and> c = char_of (48 + d)"
    using digits_decimal by blast
  have nox: "\<forall>c\<in>set (digits n). c \<noteq> CHR ''x'' \<and> c \<noteq> CHR ''X''"
  proof
    fix c assume "c \<in> set (digits n)"
    then obtain d :: nat where "d < 10" "c = char_of (48 + d)" using all by blast
    then show "c \<noteq> CHR ''x'' \<and> c \<noteq> CHR ''X''"
      using decimal_char_facts(4,5) by simp
  qed
  note nohex = take2_not_hex [OF nox]
  obtain c cs where cs: "digits n = c # cs"
    using digits_not_empty by (cases "digits n") auto
  then obtain d :: nat where "d < 10" "c = char_of (48 + d)" using all by auto
  then have "has_digit 10 (digits n)"
    unfolding cs by (simp add: has_digit_def digit_val_decimal)
  then show ?thesis
    unfolding parse_magnitude_def Let_def using nohex by (simp add: read_digits_digits)
qed


lemma parseInt_digits:
  "parseInt (Some (digits n)) = Some (int n)"
proof -
  obtain c cs where cs: "digits n = c # cs"
    using digits_not_empty by (cases "digits n") auto
  have "c \<in> set (digits n)" using cs by simp
  then obtain d :: nat where d: "d < 10" "c = char_of (48 + d)"
    using digits_decimal by blast
  have sp: "\<not> is_space c" and minus: "c \<noteq> CHR ''-''" and plus: "c \<noteq> CHR ''+''"
    using decimal_char_facts(1,2,3) [OF d(1)] d(2) by simp_all
  have dw: "dropWhile is_space (c # cs) = c # cs"
    using sp by simp
  have pm: "parse_magnitude (c # cs) = Some n"
    using parse_magnitude_digits [of n] cs by simp
  show ?thesis
    unfolding parseInt_def cs option.case Let_def dw list.case
    using minus plus pm by simp
qed

lemma parseInt_String_of_int: "parseInt (Some (String_of_int i)) = Some i"
proof (cases "i < 0")
  case True
  have dw: "dropWhile is_space (CHR ''-'' # digits (nat (- i))) = CHR ''-'' # digits (nat (- i))"
    by (simp add: is_space_def)
  have "parseInt (Some (CHR ''-'' # digits (nat (- i)))) = Some (- int (nat (- i)))"
    unfolding parseInt_def option.case Let_def dw list.case
    by (simp add: parse_magnitude_digits)
  then show ?thesis using True by (simp add: String_of_int_def)
next
  case False
  then show ?thesis using parseInt_digits [of "nat i"] by (simp add: String_of_int_def)
qed

subsection \<open>Creating and updating\<close>

lemma saveData_fields:
  "birds (saveData s) = birds s" "ipOperationsFile (saveData s) = ipOperationsFile s"
  "operationLogFile (saveData s) = operationLogFile s" "images (saveData s) = images s"
  by (simp_all add: saveData_def)

lemma sample_state_files:
  "ipOperationsFile sample_state = []" "operationLogFile sample_state = []"
  "birds sample_state = [robin, wren, crow]"
  by (simp_all add: sample_state_def fresh_state_def)

text \<open>
  Claim C7 fails on the update route: the creation handler answers 400 to a name of more
  than ten characters, the update handler stores it.
\<close>

theorem update_accepts_long_name:
  "map_option status (response_of (handle sample_state long_name_create)) = Some 400
   \<and> map_option status (response_of (handle sample_state long_name_update)) = Some 200
   \<and> map name (birds (state_after sample_state long_name_update)) = [''abcdefghijk'', ''wren'', ''Crow'']
   \<and> length ''abcdefghijk'' = 11"
proof -
  have id: "parseInt (Some ''3000'') = Some 3000"
    by code_simp
  have mc: "mutating long_name_create" and mu: "mutating long_name_update"
    by (simp_all add: long_name_create_def long_name_update_def id_request_def plain_request_def
        mutating_def)
  have ok: "\<And>req. \<not> 8 \<le> length (filter (\<lambda>op. now req - 86400000 < timestamp op \<and> ip op = getClientIp req)
                          (ipOperationsFile sample_state))"
    by (simp add: sample_state_files)
  have hc: "x_operation_desc long_name_create \<noteq> MalformedDesc"
    and hu: "x_operation_desc long_name_update \<noteq> MalformedDesc"
    by (simp_all add: long_name_create_def long_name_update_def id_request_def plain_request_def)
  note c = limiter_then_logger [OF mc ok hc]
  note u = limiter_then_logger [OF mu ok hu]
  have r: "route long_name_create = CreateBird" "body_name long_name_create = Some ''abcdefghijk''"
    "image_part long_name_create = None"
    "route long_name_update = UpdateBird" "body_name long_name_update = Some ''abcdefghijk''"
    "image_part long_name_update = None" "params_id long_name_update = ''3000''"
    by (simp_all add: long_name_create_def long_name_update_def id_request_def plain_request_def)
  have b: "birds sample_state = [robin, wren, crow]"
    by (simp add: sample_state_def)
  have 1: "map_option status (response_of (handle sample_state long_name_create)) = Some 400"
    unfolding c by (simp add: r chain_of_def upload_single_def create_bird_def send_def)
  have 2: "map_option status (response_of (handle sample_state long_name_update)) = Some 200"
    unfolding u
    by (simp add: r b id chain_of_def upload_single_def update_bird_def send_def Let_def
        robin_def wren_def crow_def)
  have 3: "map name (birds (state_after sample_state long_name_update)) = [''abcdefghijk'', ''wren'', ''Crow'']"
    unfolding state_after_def u
    by (simp add: r b id chain_of_def upload_single_def update_bird_def send_def Let_def
        robin_def wren_def crow_def saveData_fields)
  show ?thesis using 1 2 3 by simp
qed


lemma create_outcome:
  assumes r: "route req = CreateBird"
    and pass: "\<not> 8 \<le> length (filter (\<lambda>op. now req - 86400000 < timestamp op \<and> ip op = getClientIp req)
                              (ipOperationsFile s))"
    and hdr: "x_operation_desc req \<noteq> MalformedDesc"
    and nm: "body_name req = Some n" "n \<noteq> []" "length n \<le> 10"
    and img: "case image_part req of None \<Rightarrow> True | Some f \<Rightarrow> file_size f \<le> 1048576"
  shows "map_option status (response_of (handle s req)) = Some 201"
    and "map_option body (response_of (handle s req)) =
           Some (BirdOpBody \<lparr>bird_id = now req, name = n,
                              imageUrl = map_option filename (image_part req)\<rparr>
                   (Some (case x_operation_desc req of
                            Desc d \<Rightarrow> d
                          | _ \<Rightarrow> method_text (req_method req) @ '' '' @ req_path req)))"
    and "birds (state_after s req) =
           \<lparr>bird_id = now req, name = n, imageUrl = map_option filename (image_part req)\<rparr> # birds s"
proof -
  have m: "mutating req" using r by (simp add: mutating_def)
  note h = limiter_then_logger [OF m pass hdr]
  show "map_option status (response_of (handle s req)) = Some 201"
    unfolding h using r nm img
    by (auto simp: chain_of_def upload_single_def create_bird_def send_def Let_def
        split: option.splits)
  show "map_option body (response_of (handle s req)) =
           Some (BirdOpBody \<lparr>bird_id = now req, name = n,
                              imageUrl = map_option filename (image_part req)\<rparr>
                   (Some (case x_operation_desc req of
                            Desc d \<Rightarrow> d
                          | _ \<Rightarrow> method_text (req_method req) @ '' '' @ req_path req)))"
    unfolding h using r nm img
    by (auto simp: chain_of_def upload_single_def create_bird_def send_def Let_def
        split: option.splits)
  show "birds (state_after s req) =
           \<lparr>bird_id = now req, name = n, imageUrl = map_option filename (image_part req)\<rparr> # birds s"
    unfolding state_after_def h using r nm img
    by (auto simp: chain_of_def upload_single_def create_bird_def send_def Let_def saveData_fields
        split: option.splits)
qed

lemma get_outcome:
  assumes "route g = GetBird"
  shows "response_of (handle s g) =
           (case find (\<lambda>bird. Some (bird_id bird) = parseInt (Some (params_id g))) (birds s) of
              None \<Rightarrow> Some \<lparr>status = 404, ratelimit = None, body = ErrorBody ''Bird not found''\<rparr>
            | Some bird \<Rightarrow> Some \<lparr>status = 200, ratelimit = None, body = BirdBody bird\<rparr>)"
  using assms
  by (simp add: handle_def chain_of_def run_chain_single_response get_bird_def send_def Let_def
      del: run_chain.simps split: option.splits)

text \<open>
  Claim C8, as the code has it. A valid creation is answered with 201 and a record whose id
  is the clock reading of the request, put in front of the list. The id is that of no other
  record when no stored record had it before (ids are not deduplicated: two creations in one
  millisecond share an id). A GET for that id right after the creation, with the id in
  decimal as the parameter, is answered with the created record.
\<close>

theorem create_then_get:
  assumes r: "route req = CreateBird"
    and pass: "\<not> 8 \<le> length (filter (\<lambda>op. now req - 24 * 60 * 60 * 1000 < timestamp op \<and> ip op = getClientIp req)
                              (ipOperationsFile s))"
    and hdr: "x_operation_desc req \<noteq> MalformedDesc"
    and nm: "body_name req = Some n" "n \<noteq> []" "length n \<le> 10"
    and img: "case image_part req of None \<Rightarrow> True | Some f \<Rightarrow> file_size f \<le> 1048576"
    and g: "route g = GetBird" "params_id g = String_of_int (now req)"
  shows "map_option status (response_of (handle s req)) = Some 201
       \<and> map_option body (response_of (handle s req)) =
           Some (BirdOpBody \<lparr>bird_id = now req, name = n,
                              imageUrl = map_option filename (image_part req)\<rparr>
                   (Some (case x_operation_desc req of
                            Desc d \<Rightarrow> d
                          | _ \<Rightarrow> method_text (req_method req) @ '' '' @ req_path req)))
       \<and> birds (state_after s req) =
           \<lparr>bird_id = now req, name = n, imageUrl = map_option filename (image_part req)\<rparr> # birds s
       \<and> ((\<forall>x\<in>set (birds s). bird_id x \<noteq> now req) \<longrightarrow>
            filter (\<lambda>x. bird_id x = now req) (birds (state_after s req)) =
              [\<lparr>bird_id = now req, name = n, imageUrl = map_option filename (image_part req)\<rparr>])
       \<and> response_of (handle (state_after s req) g) =
           Some \<lparr>status = 200, ratelimit = None,
                 body = BirdBody \<lparr>bird_id = now req, name = n,
                                   imageUrl = map_option filename (image_part req)\<rparr>\<rparr>"
proof -
  have pass': "\<not> 8 \<le> length (filter (\<lambda>op. now req - 86400000 < timestamp op \<and> ip op = getClientIp req)
                              (ipOperationsFile s))"
    using pass by simp
  note c = create_outcome [OF r pass' hdr nm img]
  have uniq: "(\<forall>x\<in>set (birds s). bird_id x \<noteq> now req) \<longrightarrow>
            filter (\<lambda>x. bird_id x = now req) (birds (state_after s req)) =
              [\<lparr>bird_id = now req, name = n, imageUrl = map_option filename (image_part req)\<rparr>]"
    unfolding c(3) by (simp add: filter_empty_conv)
  have "response_of (handle (state_after s req) g) =
           Some \<lparr>status = 200, ratelimit = None,
                 body = BirdBody \<lparr>bird_id = now req, name = n,
                                   imageUrl = map_option filename (image_part req)\<rparr>\<rparr>"
    unfolding get_outcome [OF g(1)] g(2) parseInt_String_of_int c(3) by simp
  then show ?thesis using c uniq by simp
qed


theorem create_then_get_witness:
  "route valid_create = CreateBird
   \<and> route (get_request ''4000'') = GetBird
   \<and> params_id (get_request ''4000'') = String_of_int (now valid_create)
   \<and> map_option status (response_of (handle sample_state valid_create)) = Some 201
   \<and> birds (state_after sample_state valid_create) = [jay, robin, wren, crow]
   \<and> filter (\<lambda>x. bird_id x = 4000) (birds (state_after sample_state valid_create)) = [jay]
   \<and> response_of (handle (state_after sample_state valid_create) (get_request ''4000''))
       = Some \<lparr>status = 200, ratelimit = None, body = BirdBody jay\<rparr>"
proof -
  have r: "route valid_create = CreateBird"
    by (simp add: valid_create_def plain_request_def)
  have pass: "\<not> 8 \<le> length (filter (\<lambda>op. now valid_create - 24 * 60 * 60 * 1000 < timestamp op
                    \<and> ip op = getClientIp valid_create) (ipOperationsFile sample_state))"
    by (simp add: sample_state_files)
  have hdr: "x_operation_desc valid_create \<noteq> MalformedDesc"
    by (simp add: valid_create_def plain_request_def)
  have nm: "body_name valid_create = Some ''jay''" "''jay'' \<noteq> []" "length ''jay'' \<le> 10"
    by (simp_all add: valid_create_def plain_request_def)
  have img: "case image_part valid_create of None \<Rightarrow> True | Some f \<Rightarrow> file_size f \<le> 1048576"
    by (simp add: valid_create_def plain_request_def)
  have t: "now valid_create = 4000" "image_part valid_create = None"
    by (simp_all add: valid_create_def plain_request_def)
  have str: "String_of_int 4000 = ''4000''"
    by code_simp
  have g: "route (get_request ''4000'') = GetBird"
    "params_id (get_request ''4000'') = String_of_int (now valid_create)"
    by (simp_all add: get_request_def id_request_def plain_request_def t str)
  have fresh: "\<forall>x\<in>set (birds sample_state). bird_id x \<noteq> now valid_create"
    by (simp add: sample_state_files t robin_def wren_def crow_def)
  show ?thesis
    using r g fresh create_then_get [OF r pass hdr nm img g]
    by (simp add: t jay_def sample_state_files)
qed

text \<open>
  Claim C8 as stated fails: a creation at the millisecond that gave a stored bird its id
  is answered with 201 and leaves two records with that id.
\<close>

theorem create_id_collides:
  "route same_ms_create = CreateBird
   \<and> body_name same_ms_create = Some ''jay''
   \<and> map_option status (response_of (handle sample_state same_ms_create)) = Some 201
   \<and> map bird_id (birds (state_after sample_state same_ms_create)) = [3000, 3000, 2000, 1000]
   \<and> \<not> distinct (map bird_id (birds (state_after sample_state same_ms_create)))"
proof -
  have r: "route same_ms_create = CreateBird"
    by (simp add: same_ms_create_def plain_request_def)
  have pass: "\<not> 8 \<le> length (filter (\<lambda>op. now same_ms_create - 86400000 < timestamp op
                    \<and> ip op = getClientIp same_ms_create) (ipOperationsFile sample_state))"
    by (simp add: sample_state_files)
  have hdr: "x_operation_desc same_ms_create \<noteq> MalformedDesc"
    by (simp add: same_ms_create_def plain_request_def)
  have nm: "body_name same_ms_create = Some ''jay''" "''jay'' \<noteq> []" "length ''jay'' \<le> 10"
    by (simp_all add: same_ms_create_def plain_request_def)
  have img: "case image_part same_ms_create of None \<Rightarrow> True | Some f \<Rightarrow> file_size f \<le> 1048576"
    by (simp add: same_ms_create_def plain_request_def)
  have t: "now same_ms_create = 3000"
    by (simp add: same_ms_create_def plain_request_def)
  note c = create_outcome [OF r pass hdr nm img]
  show ?thesis
    using r nm(1) c(1) unfolding c(3)
    by (simp add: t sample_state_files robin_def wren_def crow_def)
qed

subsection \<open>Writing the data file and reading it back\<close>

lemma cons_char_Inr: "cons_char c (Inr (str, rest)) = Inr (c # str, rest)"
  by (simp add: cons_char_def)

lemma digit_val_hex_digit: "d < 16 \<Longrightarrow> digit_val (hex_digit d) = Some d"
  by (auto simp: digit_val_def hex_digit_def Let_def)

lemma hex4_escape:
  assumes "n < 32"
  shows "hex4 (CHR ''0'' # CHR ''0'' # hex_digit (n div 16) # hex_digit (n mod 16) # t) = Some n"
proof -
  have a: "digit_val (hex_digit (n div 16)) = Some (n div 16)"
    using assms by (intro digit_val_hex_digit) simp
  have b: "digit_val (hex_digit (n mod 16)) = Some (n mod 16)"
    by (intro digit_val_hex_digit) simp
  have z: "digit_val CHR ''0'' = Some 0"
    by (simp add: digit_val_def)
  show ?thesis
    by (simp add: hex4_def a b z)
qed

lemma parse_escaped_char:
  "parse_string_body (escape_char c @ t) = cons_char c (parse_string_body t)"
proof -
  define n :: nat where "n = of_char c"
  have c: "c = char_of n" by (simp add: n_def)
  have lt: "n < 256" unfolding n_def by (metis of_char_mod_256 mod_less_divisor zero_less_numeral)
  consider "n = 0x22" | "n = 0x5C" | "n = 0x08" | "n = 0x0C" | "n = 0x0A" | "n = 0x0D" | "n = 0x09"
    | "n < 0x20" "n \<noteq> 0x08" "n \<noteq> 0x0C" "n \<noteq> 0x0A" "n \<noteq> 0x0D" "n \<noteq> 0x09"
    | "0x20 \<le> n" "n \<noteq> 0x22" "n \<noteq> 0x5C"
    by linarith
  then show ?thesis
  proof cases
    case 1
    then have "c = CHR 0x22" using c by (simp add: char_of_eq_iff take_bit_eq_mod)
    then show ?thesis by (simp add: escape_char_def unescape_def)
  next
    case 2
    then have "c = CHR 0x5C" using c by (simp add: char_of_eq_iff take_bit_eq_mod)
    then show ?thesis by (simp add: escape_char_def unescape_def)
  next
    case 3
    then have "c = CHR 0x08" using c by (simp add: char_of_eq_iff take_bit_eq_mod)
    then show ?thesis by (simp add: escape_char_def unescape_def)
  next
    case 4
    then have "c = CHR 0x0C" using c by (simp add: char_of_eq_iff take_bit_eq_mod)
    then show ?thesis by (simp add: escape_char_def unescape_def)
  next
    case 5
    then have "c = CHR 0x0A" using c by (simp add: char_of_eq_iff take_bit_eq_mod)
    then show ?thesis by (simp add: escape_char_def unescape_def)
  next
    case 6
    then have "c = CHR 0x0D" using c by (simp add: char_of_eq_iff take_bit_eq_mod)
    then show ?thesis by (simp add: escape_char_def unescape_def)
  next
    case 7
    then have "c = CHR 0x09" using c by (simp add: char_of_eq_iff take_bit_eq_mod)
    then show ?thesis by (simp add: escape_char_def unescape_def)
  next
    case 8
    have e: "escape_char c =
        [CHR 0x5C, CHR ''u'', CHR ''0'', CHR ''0'', hex_digit (n div 16), hex_digit (n mod 16)]"
      using 8 by (simp add: escape_char_def n_def [symmetric])
    show ?thesis
      unfolding e using hex4_escape [OF 8(1)] 8(1) c by simp
  next
    case 9
    have e: "escape_char c = [c]"
      using 9 by (simp add: escape_char_def n_def [symmetric])
    have "c \<noteq> CHR 0x22" "c \<noteq> CHR 0x5C"
      using 9 n_def by auto
    then show ?thesis
      unfolding e using 9(1) by (simp add: n_def [symmetric])
  qed
qed

lemma parse_quoted:
  "parse_string_body (concat (map escape_char s) @ CHR 0x22 # rest) = Inr (s, rest)"
  by (induction s) (simp_all add: parse_escaped_char cons_char_Inr)


lemma is_digit_decimal: "(d::nat) < 10 \<Longrightarrow> is_digit (char_of (48 + d))"
  by (simp add: is_digit_def)

lemma digits_all_digit: "list_all is_digit (digits n)"
proof -
  have "\<forall>c\<in>set (digits n). is_digit c"
  proof
    fix c assume "c \<in> set (digits n)"
    then obtain d :: nat where "d < 10" "c = char_of (48 + d)"
      using digits_decimal by blast
    then show "is_digit c" using is_digit_decimal by simp
  qed
  then show ?thesis by (simp add: list_all_iff)
qed

lemma digits_no_leading_zero: "0 < n \<Longrightarrow> take 1 (digits n) \<noteq> ''0''"
proof (induction n rule: digits.induct)
  case (1 n)
  show ?case
  proof (cases "n < 10")
    case True
    then show ?thesis using "1.prems"
      by (simp add: digits.simps [of n] char_of_eq_iff take_bit_eq_mod)
  next
    case False
    then have pos: "0 < n div 10" by simp
    have ne: "digits (n div 10) \<noteq> []" by (rule digits_not_empty)
    have "take 1 (digits n) = take 1 (digits (n div 10))"
      using False ne by (cases "digits (n div 10)") (simp_all add: digits.simps [of n])
    then show ?thesis using "1.IH" False pos by simp
  qed
qed

lemma digits_length_one: "length (digits n) > 1 \<Longrightarrow> 0 < n"
  by (cases "n = 0") (simp_all add: digits.simps [of 0])

lemma delimited_facts:
  assumes "delimited rest"
  shows "takeWhile is_digit (digits n @ rest) = digits n"
    and "dropWhile is_digit (digits n @ rest) = rest"
    and "\<not> (case rest of [] \<Rightarrow> False | c # cs \<Rightarrow> c = CHR ''.'' \<or> c = CHR ''e'' \<or> c = CHR ''E'')"
proof -
  have all: "\<forall>c\<in>set (digits n). is_digit c"
    using digits_all_digit [of n] by (simp add: list_all_iff)
  have stop: "rest = [] \<or> \<not> is_digit (hd rest)"
    using assms by (auto simp: delimited_def is_digit_def split: list.splits)
  show "takeWhile is_digit (digits n @ rest) = digits n"
    using all stop by (cases rest) (simp_all add: takeWhile_append2 takeWhile_eq_all_conv)
  show "dropWhile is_digit (digits n @ rest) = rest"
    using all stop by (cases rest) (simp_all add: dropWhile_append2)
  show "\<not> (case rest of [] \<Rightarrow> False | c # cs \<Rightarrow> c = CHR ''.'' \<or> c = CHR ''e'' \<or> c = CHR ''E'')"
    using assms by (auto simp: delimited_def split: list.splits)
qed

lemma parse_number_digits:
  assumes "delimited rest"
  shows "parse_number (digits n @ rest) = Inr (int n, rest)"
proof -
  obtain c cs where cs: "digits n = c # cs"
    using digits_not_empty by (cases "digits n") auto
  have "c \<in> set (digits n)" using cs by simp
  then obtain d :: nat where d: "d < 10" "c = char_of (48 + d)"
    using digits_decimal by blast
  have nominus: "c \<noteq> CHR ''-''"
    using decimal_char_facts(2) [OF d(1)] d(2) by simp
  have neg: "(case digits n @ rest of [] \<Rightarrow> False | c # cs \<Rightarrow> c = CHR ''-'') = False"
    using cs nominus by simp
  have zero: "\<not> (length (digits n) > 1 \<and> take 1 (digits n) = ''0'')"
    using digits_no_leading_zero [of n] digits_length_one [of n] by blast
  show ?thesis
    unfolding parse_number_def Let_def neg if_False delimited_facts(1,2) [OF assms]
    using digits_not_empty [of n] zero delimited_facts(3) [OF assms]
    by (simp add: read_digits_digits)
qed

lemma parse_number_String_of_int:
  assumes "delimited rest"
  shows "parse_number (String_of_int i @ rest) = Inr (i, rest)"
proof (cases "i < 0")
  case False
  then show ?thesis
    using parse_number_digits [OF assms, of "nat i"] by (simp add: String_of_int_def)
next
  case True
  let ?n = "nat (- i)"
  have pos: "0 < ?n" using True by simp
  have zero: "\<not> (length (digits ?n) > 1 \<and> take 1 (digits ?n) = ''0'')"
    using digits_no_leading_zero [OF pos] by blast
  have "parse_number (CHR ''-'' # digits ?n @ rest) = Inr (- int ?n, rest)"
    unfolding parse_number_def Let_def
    using digits_not_empty [of ?n] zero delimited_facts(1,2) [OF assms, of "nat (- i)"] delimited_facts(3) [OF assms]
    by (simp add: read_digits_digits)
  then show ?thesis using True by (simp add: String_of_int_def)
qed


lemma char_eq_char_of: "c = char_of (n::nat) \<longleftrightarrow> of_char c = n mod 256"
  using char_of_eq_iff [of n c] by (auto simp: take_bit_eq_mod)

lemma skip_ws_simps:
  "skip_ws (CHR '' '' # t) = skip_ws t"
  "skip_ws (CHR 0x0A # t) = skip_ws t"
  "skip_ws (CHR 0x22 # t) = CHR 0x22 # t"
  "skip_ws (CHR '':'' # t) = CHR '':'' # t"
  "skip_ws (CHR '','' # t) = CHR '','' # t"
  "skip_ws (CHR ''{'' # t) = CHR ''{'' # t"
  "skip_ws (CHR ''}'' # t) = CHR ''}'' # t"
  "skip_ws (CHR ''['' # t) = CHR ''['' # t"
  "skip_ws (CHR '']'' # t) = CHR '']'' # t"
  "skip_ws (CHR ''n'' # t) = CHR ''n'' # t"
  "skip_ws [] = []"
  by (simp_all add: skip_ws_def is_json_ws_def)

lemma skip_ws_String_of_int: "skip_ws (String_of_int i @ t) = String_of_int i @ t"
proof (cases "i < 0")
  case True
  then show ?thesis by (simp add: String_of_int_def skip_ws_def is_json_ws_def)
next
  case False
  obtain c cs where cs: "digits (nat i) = c # cs"
    using digits_not_empty by (cases "digits (nat i)") auto
  have "c \<in> set (digits (nat i))" using cs by simp
  then obtain d :: nat where d: "d < 10" "c = char_of (48 + d)"
    using digits_decimal by blast
  have "\<not> is_json_ws c"
    using d by (simp add: is_json_ws_def char_of_eq_iff take_bit_eq_mod)
  then show ?thesis using False cs by (simp add: String_of_int_def skip_ws_def)
qed

lemma parse_value_number:
  assumes "delimited rest"
  shows "parse_value (Suc n) (String_of_int i @ rest) = Inr (JNum i, rest)"
proof -
  obtain c cs where cs: "String_of_int i = c # cs"
    and c: "c = CHR ''-'' \<or> (\<exists>d::nat. d < 10 \<and> c = char_of (48 + d))"
  proof (cases "i < 0")
    case True
    then have "String_of_int i = CHR ''-'' # digits (nat (- i))" by (simp add: String_of_int_def)
    then show ?thesis using that by blast
  next
    case False
    obtain c cs where cs: "digits (nat i) = c # cs"
      using digits_not_empty by (cases "digits (nat i)") auto
    have "c \<in> set (digits (nat i))" using cs by simp
    then obtain d :: nat where d: "d < 10" "c = char_of (48 + d)"
      using digits_decimal by blast
    have "String_of_int i = c # cs" using False cs by (simp add: String_of_int_def)
    then show ?thesis using that d by blast
  qed
  have no: "c \<noteq> CHR ''n''" "c \<noteq> CHR ''t''" "c \<noteq> CHR ''f''" "c \<noteq> CHR 0x22"
    "c \<noteq> CHR ''[''" "c \<noteq> CHR ''{''"
    using c by (auto simp: char_eq_char_of)
  have yes: "c = CHR ''-'' \<or> is_digit c"
    using c is_digit_decimal by blast
  have "parse_value (Suc n) (c # cs @ rest) =
          (case parse_number (c # cs @ rest) of
             Inl e \<Rightarrow> Inl e
           | Inr (i, rest) \<Rightarrow> Inr (JNum i, rest))"
    using no yes by simp
  then show ?thesis
    using parse_number_String_of_int [OF assms, of i] cs by simp
qed

lemma parse_value_string:
  "parse_value (Suc n) (QuoteJSONString s @ rest) = Inr (JStr s, rest)"
  by (simp add: QuoteJSONString_def parse_quoted)

lemma parse_value_null:
  "parse_value (Suc n) (CHR ''n'' # CHR ''u'' # CHR ''l'' # CHR ''l'' # rest) = Inr (JNull, rest)"
  by simp


lemma parse_member_more:
  assumes v: "parse_value n (vt @ CHR '','' # t) = Inr (v, CHR '','' # t)"
    and k: "\<not> is_array_index k"
    and vt: "skip_ws (vt @ CHR '','' # t) = vt @ CHR '','' # t"
  shows "parse_members (Suc n) acc
           (CHR 0x22 # concat (map escape_char k) @ CHR 0x22 # CHR '':'' # CHR '' '' # vt @ CHR '','' # t)
         = parse_members n (obj_put k v acc) (skip_ws t)"
  by (simp add: parse_quoted skip_ws_simps vt v k)

lemma parse_member_last:
  assumes v: "parse_value n (vt @ CHR 0x0A # CHR '' '' # CHR '' '' # CHR ''}'' # rest)
                = Inr (v, CHR 0x0A # CHR '' '' # CHR '' '' # CHR ''}'' # rest)"
    and k: "\<not> is_array_index k"
    and vt: "skip_ws (vt @ CHR 0x0A # CHR '' '' # CHR '' '' # CHR ''}'' # rest)
               = vt @ CHR 0x0A # CHR '' '' # CHR '' '' # CHR ''}'' # rest"
  shows "parse_members (Suc n) acc
           (CHR 0x22 # concat (map escape_char k) @ CHR 0x22 # CHR '':'' # CHR '' '' # vt
              @ CHR 0x0A # CHR '' '' # CHR '' '' # CHR ''}'' # rest)
         = Inr (obj_put k v acc, rest)"
  by (simp add: parse_quoted skip_ws_simps vt v k)

declare parse_value.simps [simp del] parse_elements.simps [simp del] parse_members.simps [simp del]

lemma skip_ws_quote: "skip_ws (QuoteJSONString s @ t) = QuoteJSONString s @ t"
  by (simp add: QuoteJSONString_def skip_ws_simps)

lemma parse_record:
  assumes keys: "\<not> is_array_index k1" "\<not> is_array_index k2" "\<not> is_array_index k3"
    and dist: "k1 \<noteq> k2" "k1 \<noteq> k3" "k2 \<noteq> k3"
    and u: "u = JNull \<or> (\<exists>f. u = JStr f)"
  shows "parse_value (Suc (Suc (Suc (Suc (Suc n)))))
           (SerializeJSONProperty ''  '' (JObj [(k1, JNum i), (k2, JStr str), (k3, u)]) @ rest)
         = Inr (JObj [(k1, JNum i), (k2, JStr str), (k3, u)], rest)"
proof -
  let ?close = "CHR 0x0A # CHR '' '' # CHR '' '' # CHR ''}'' # rest"
  let ?ut = "SerializeJSONProperty ''    '' u"
  let ?m3 = "CHR 0x22 # concat (map escape_char k3) @ CHR 0x22 # CHR '':'' # CHR '' '' # ?ut @ ?close"
  let ?m2 = "CHR 0x22 # concat (map escape_char k2) @ CHR 0x22 # CHR '':'' # CHR '' '' # QuoteJSONString str
               @ CHR '','' # CHR 0x0A # CHR '' '' # CHR '' '' # CHR '' '' # CHR '' '' # ?m3"
  let ?m1 = "CHR 0x22 # concat (map escape_char k1) @ CHR 0x22 # CHR '':'' # CHR '' '' # String_of_int i
               @ CHR '','' # CHR 0x0A # CHR '' '' # CHR '' '' # CHR '' '' # CHR '' '' # ?m2"
  have shape: "SerializeJSONProperty ''  '' (JObj [(k1, JNum i), (k2, JStr str), (k3, u)]) @ rest
                = CHR ''{'' # CHR 0x0A # CHR '' '' # CHR '' '' # CHR '' '' # CHR '' '' # ?m1"
    by (simp add: QuoteJSONString_def)
  have uv: "parse_value (Suc n) (?ut @ ?close) = Inr (u, ?close)"
  proof (cases "u = JNull")
    case True
    then show ?thesis using parse_value_null [of n ?close] by simp
  next
    case False
    then obtain f where "u = JStr f" using u by blast
    then show ?thesis using parse_value_string [of n f ?close] by simp
  qed
  have us: "skip_ws (?ut @ ?close) = ?ut @ ?close"
  proof (cases "u = JNull")
    case True
    then show ?thesis by (simp add: skip_ws_simps)
  next
    case False
    then obtain f where "u = JStr f" using u by blast
    then show ?thesis using skip_ws_quote [of f ?close] by simp
  qed
  have p3: "parse_members (Suc (Suc n)) acc ?m3 = Inr (obj_put k3 u acc, rest)" for acc
    by (rule parse_member_last [OF uv keys(3) us])
  have p2: "parse_members (Suc (Suc (Suc n))) acc ?m2
              = Inr (obj_put k3 u (obj_put k2 (JStr str) acc), rest)" for acc
  proof -
    let ?t = "CHR 0x0A # CHR '' '' # CHR '' '' # CHR '' '' # CHR '' '' # ?m3"
    have "parse_members (Suc (Suc (Suc n))) acc ?m2
            = parse_members (Suc (Suc n)) (obj_put k2 (JStr str) acc) (skip_ws ?t)"
      by (rule parse_member_more [OF parse_value_string keys(2) skip_ws_quote])
    then show ?thesis by (simp add: skip_ws_simps p3)
  qed
  have p1: "parse_members (Suc (Suc (Suc (Suc n)))) [] ?m1
              = Inr (obj_put k3 u (obj_put k2 (JStr str) (obj_put k1 (JNum i) [])), rest)"
  proof -
    let ?t = "CHR 0x0A # CHR '' '' # CHR '' '' # CHR '' '' # CHR '' '' # ?m2"
    have d: "delimited (CHR '','' # ?t)" by (simp add: delimited_def)
    have "parse_members (Suc (Suc (Suc (Suc n)))) [] ?m1
            = parse_members (Suc (Suc (Suc n))) (obj_put k1 (JNum i) []) (skip_ws ?t)"
      by (rule parse_member_more [OF parse_value_number [OF d] keys(1) skip_ws_String_of_int])
    then show ?thesis by (simp add: skip_ws_simps p2)
  qed
  have put: "obj_put k3 u (obj_put k2 (JStr str) (obj_put k1 (JNum i) []))
               = [(k1, JNum i), (k2, JStr str), (k3, u)]"
    using dist by (simp add: obj_put_def)
  show ?thesis
    unfolding shape by (simp add: parse_value.simps skip_ws_simps p1 put)
qed

lemma bird_of_json_bird_to_json: "bird_of_json (bird_to_json b) = Some b"
  by (cases "imageUrl b") (simp_all add: bird_to_json_def)

lemma parse_bird:
  "parse_value (Suc (Suc (Suc (Suc (Suc n))))) (SerializeJSONProperty ''  '' (bird_to_json b) @ rest)
     = Inr (bird_to_json b, rest)"
proof -
  have keys: "\<not> is_array_index ''id''" "\<not> is_array_index ''name''" "\<not> is_array_index ''imageUrl''"
    by (simp_all add: is_array_index_def is_digit_def)
  have dist: "''id'' \<noteq> ''name''" "''id'' \<noteq> ''imageUrl''" "''name'' \<noteq> ''imageUrl''"
    by simp_all
  have u: "(case imageUrl b of None \<Rightarrow> JNull | Some u \<Rightarrow> JStr u) = JNull
           \<or> (\<exists>f. (case imageUrl b of None \<Rightarrow> JNull | Some u \<Rightarrow> JStr u) = JStr f)"
    by (cases "imageUrl b") simp_all
  show ?thesis
    unfolding bird_to_json_def by (rule parse_record [OF keys dist u])
qed


lemma bird_text_starts:
  "\<exists>t. SerializeJSONProperty ind (bird_to_json b) = CHR ''{'' # t"
  by (simp add: bird_to_json_def)

lemma birds_text_starts:
  assumes "bs \<noteq> []"
  shows "\<exists>t. SerializeJSONArray ind (map bird_to_json bs) = CHR ''{'' # t"
proof -
  obtain b bs' where bs: "bs = b # bs'" using assms by (cases bs) auto
  obtain t where t: "SerializeJSONProperty ind (bird_to_json b) = CHR ''{'' # t"
    using bird_text_starts by blast
  show ?thesis
    unfolding bs using t by (cases bs') simp_all
qed

lemma birds_text_length:
  "length bs \<le> length (SerializeJSONArray ind (map bird_to_json bs))"
proof (induction bs)
  case Nil
  then show ?case by simp
next
  case (Cons b bs)
  obtain t where t: "SerializeJSONProperty ind (bird_to_json b) = CHR ''{'' # t"
    using bird_text_starts by blast
  show ?case
  proof (cases bs)
    case Nil
    then show ?thesis using t by simp
  next
    case (Cons b' bs')
    then show ?thesis using t Cons.IH by simp
  qed
qed

lemma parse_birds:
  assumes "bs \<noteq> []" and "length bs + 5 \<le> n"
  shows "parse_elements n acc
           (SerializeJSONArray ''  '' (map bird_to_json bs) @ CHR 0x0A # CHR '']'' # rest)
         = Inr (acc @ map bird_to_json bs, rest)"
  using assms
proof (induction bs arbitrary: n acc)
  case Nil
  then show ?case by simp
next
  case (Cons b bs)
  have n: "n = Suc (Suc (Suc (Suc (Suc (Suc (n - 6))))))"
    using Cons.prems(2) by simp
  let ?k = "n - 6"
  let ?m = "Suc (Suc (Suc (Suc (Suc ?k))))"
  show ?case
  proof (cases bs)
    case Nil
    have v: "parse_value ?m (SerializeJSONProperty ''  '' (bird_to_json b) @ CHR 0x0A # CHR '']'' # rest)
               = Inr (bird_to_json b, CHR 0x0A # CHR '']'' # rest)"
      by (rule parse_bird)
    have "parse_elements (Suc ?m) acc
            (SerializeJSONProperty ''  '' (bird_to_json b) @ CHR 0x0A # CHR '']'' # rest)
          = Inr (acc @ [bird_to_json b], rest)"
      by (simp add: parse_elements.simps v skip_ws_simps)
    then show ?thesis using Nil n by simp
  next
    case (Cons b' bs')
    let ?next = "SerializeJSONArray ''  '' (map bird_to_json bs) @ CHR 0x0A # CHR '']'' # rest"
    let ?tail = "CHR '','' # CHR 0x0A # CHR '' '' # CHR '' '' # ?next"
    have shape: "SerializeJSONArray ''  '' (map bird_to_json (b # bs)) @ CHR 0x0A # CHR '']'' # rest
                   = SerializeJSONProperty ''  '' (bird_to_json b) @ ?tail"
      using Cons by simp
    have v: "parse_value ?m (SerializeJSONProperty ''  '' (bird_to_json b) @ ?tail)
               = Inr (bird_to_json b, ?tail)"
      by (rule parse_bird)
    have ne: "bs \<noteq> []" using Cons by simp
    obtain t where t: "SerializeJSONArray ''  '' (map bird_to_json bs) = CHR ''{'' # t"
      using birds_text_starts [OF ne] by blast
    have sk: "skip_ws (CHR 0x0A # CHR '' '' # CHR '' '' # ?next) = ?next"
      unfolding t by (simp add: skip_ws_simps)
    have fuel: "length bs + 5 \<le> ?m"
      using Cons.prems(2) by simp
    have "parse_elements (Suc ?m) acc (SerializeJSONProperty ''  '' (bird_to_json b) @ ?tail)
            = parse_elements ?m (acc @ [bird_to_json b]) ?next"
      by (simp add: parse_elements.simps v skip_ws_simps(5) sk)
    also have "\<dots> = Inr ((acc @ [bird_to_json b]) @ map bird_to_json bs, rest)"
      by (rule Cons.IH [OF ne fuel])
    finally show ?thesis
      unfolding shape using n by simp
  qed
qed

lemma JSON_parse_birds:
  "JSON_parse (JSON_stringify_2 (JArr (map bird_to_json bs))) = Inr (JArr (map bird_to_json bs))"
proof (cases bs)
  case Nil
  then show ?thesis
    by (simp add: JSON_parse_def JSON_stringify_2_def skip_ws_simps parse_value.simps)
next
  case (Cons b bs')
  then have ne: "bs \<noteq> []" by simp
  let ?arr = "SerializeJSONArray ''  '' (map bird_to_json bs)"
  obtain t where t: "?arr = CHR ''{'' # t"
    using birds_text_starts [OF ne] by blast
  have shape: "JSON_stringify_2 (JArr (map bird_to_json bs))
                 = CHR ''['' # CHR 0x0A # CHR '' '' # CHR '' '' # ?arr @ CHR 0x0A # CHR '']'' # []"
    using Cons by (simp add: JSON_stringify_2_def)
  let ?n = "length ?arr + 6"
  have len: "Suc (length (CHR ''['' # CHR 0x0A # CHR '' '' # CHR '' '' # ?arr @ CHR 0x0A # CHR '']'' # []))
               = Suc ?n"
    by simp
  have fuel: "length bs + 5 \<le> ?n"
    using birds_text_length [of bs "''  ''"] by simp
  have el: "parse_elements ?n [] (?arr @ CHR 0x0A # CHR '']'' # []) = Inr ([] @ map bird_to_json bs, [])"
    by (rule parse_birds [OF ne fuel])
  have sk: "skip_ws (CHR 0x0A # CHR '' '' # CHR '' '' # ?arr @ CHR 0x0A # CHR '']'' # [])
              = CHR ''{'' # t @ CHR 0x0A # CHR '']'' # []"
    unfolding t by (simp add: skip_ws_simps)
  have el': "parse_elements ?n [] (CHR ''{'' # t @ CHR 0x0A # CHR '']'' # []) = Inr (map bird_to_json bs, [])"
    using el unfolding t by simp
  have "parse_value (Suc ?n)
          (CHR ''['' # CHR 0x0A # CHR '' '' # CHR '' '' # ?arr @ CHR 0x0A # CHR '']'' # [])
        = Inr (JArr (map bird_to_json bs), [])"
    unfolding parse_value.simps(2) by (simp add: sk el')
  then show ?thesis
    unfolding JSON_parse_def shape len by (simp add: skip_ws_simps)
qed

lemma birds_of_json_birds: "birds_of_json (JArr (map bird_to_json bs)) = Some bs"
proof -
  have "those (map bird_of_json (map bird_to_json bs)) = Some bs"
    by (induction bs) (simp_all add: bird_of_json_bird_to_json)
  then show ?thesis by (simp add: birds_of_json_def)
qed

lemma JSON_parse_empty: "JSON_parse [] = Inl SyntaxError"
  by (simp add: JSON_parse_def skip_ws_simps parse_value.simps)

lemma initData_empty_file: "dataFile s = Some [] \<Longrightarrow> map_option birds (initData s) = Some []"
  by (simp add: initData_def JSON_parse_empty)

text \<open>
  Claim C9. Writing the store with \<^verbatim>\<open>saveData\<close> and reading the file back with
  \<^verbatim>\<open>initData\<close>, as a restart does from an empty store, gives the same list of birds:
  the same records in the same order, with equal ids, names and image names.
\<close>

theorem save_then_init_round_trip:
  "map_option birds (initData ((saveData s)\<lparr>birds := []\<rparr>)) = Some (birds s)"
  by (simp add: initData_def saveData_def JSON_parse_birds birds_of_json_birds)


theorem save_then_init_round_trip_witness:
  "map_option birds (initData ((saveData sample_state)\<lparr>birds := []\<rparr>)) = Some [robin, wren, crow]"
  using save_then_init_round_trip [of sample_state] by (simp add: sample_state_files)

end
